theory Spec2Isabelle
  imports Main "HOL-Library.Multiset" "HOL-Library.Monad_Syntax"
begin

section \<open>State model\<close>

text \<open>
  A cube state is the TypeScript object \<^verbatim>\<open>{ faces: number[][] }\<close>. The type does not
  fix the shape of the arrays, so the model keeps plain lists and writes out what
  JavaScript does when an index is out of range: reading past the end of an array
  yields \<^verbatim>\<open>undefined\<close>, writing past the end extends the array (the gap is
  filled with holes, which read as \<^verbatim>\<open>undefined\<close>), and indexing into a face that
  does not exist throws a \<^verbatim>\<open>TypeError\<close>. Facelet values are integers; \<open>Undefined\<close>
  only ever appears through an out-of-range read.

  A function that can throw returns an \<open>option\<close>: \<open>None\<close> is the thrown
  \<^verbatim>\<open>TypeError\<close> (the only exception these functions can raise).
\<close>

datatype facelet = Num int | Undefined

type_synonym face = "facelet list"

record CubeState =
  faces :: "face list"

definition arrGet :: "face \<Rightarrow> nat \<Rightarrow> facelet" where
  "arrGet xs i = (if i < length xs then xs ! i else Undefined)"

definition arrSet :: "face \<Rightarrow> nat \<Rightarrow> facelet \<Rightarrow> face" where
  "arrSet xs i v =
     (if i < length xs then xs[i := v]
      else xs @ replicate (i - length xs) Undefined @ [v])"

text \<open>\<^verbatim>\<open>faces[k]\<close> followed by an index or a spread: a missing face throws.\<close>

definition faceAt :: "face list \<Rightarrow> nat \<Rightarrow> face option" where
  "faceAt fs k = (if k < length fs then Some (fs ! k) else None)"

text \<open>\<^verbatim>\<open>faces[k][j]\<close> as an expression.\<close>

definition rd :: "face list \<Rightarrow> nat \<Rightarrow> nat \<Rightarrow> facelet option" where
  "rd fs k j = do { f \<leftarrow> faceAt fs k; Some (arrGet f j) }"

text \<open>\<^verbatim>\<open>faces[k][j] = v\<close>.\<close>

definition wr :: "face list \<Rightarrow> nat \<Rightarrow> nat \<Rightarrow> facelet \<Rightarrow> face list option" where
  "wr fs k j v = do { f \<leftarrow> faceAt fs k; Some (fs[k := arrSet f j v]) }"

text \<open>\<^verbatim>\<open>faces[a][b] = faces[c][d]\<close>.\<close>

definition cp :: "face list \<Rightarrow> nat \<times> nat \<Rightarrow> nat \<times> nat \<Rightarrow> face list option" where
  "cp fs dst src = do { v \<leftarrow> rd fs (fst src) (snd src); wr fs (fst dst) (snd dst) v }"

definition createSolvedCube :: CubeState where
  "createSolvedCube = \<lparr> faces = map (\<lambda>i. replicate 9 (Num (int i))) [0..<6] \<rparr>"

text \<open>
  The shape the data model asks of a state: six faces of nine facelets. Nothing in the
  code enforces it.
\<close>

definition wellFormed :: "CubeState \<Rightarrow> bool" where
  "wellFormed s \<longleftrightarrow> length (faces s) = 6 \<and> (\<forall>f \<in> set (faces s). length f = 9)"

section \<open>Move engine\<close>

text \<open>
  \<^verbatim>\<open>applyPermutation(face, perm)\<close>: \<open>temp\<close> is a copy of the face as it was, and the
  loop stores \<^verbatim>\<open>temp[perm[i]]\<close> at index \<open>i\<close> for every index of \<open>perm\<close>.
\<close>

definition applyPermutation :: "face \<Rightarrow> nat list \<Rightarrow> face" where
  "applyPermutation face perm =
     fold (\<lambda>i f. arrSet f i (arrGet face (perm ! i))) [0..<length perm] face"

text \<open>\<^verbatim>\<open>applyPermutation(newCube.faces[k], perm)\<close>, which updates that face in place.\<close>

definition permFace :: "face list \<Rightarrow> nat \<Rightarrow> nat list \<Rightarrow> face list option" where
  "permFace fs k perm = do { f \<leftarrow> faceAt fs k; Some (fs[k := applyPermutation f perm]) }"

definition facePermutation :: "nat list" where
  "facePermutation = [6, 3, 0, 7, 4, 1, 8, 5, 2]"

definition facePermutationPrime :: "nat list" where
  "facePermutationPrime = [2, 5, 8, 1, 4, 7, 0, 3, 6]"

definition facePermutation2 :: "nat list" where
  "facePermutation2 = [8, 7, 6, 5, 4, 3, 2, 1, 0]"

text \<open>One definition per \<^verbatim>\<open>case\<close> of the switch, statement by statement.\<close>

definition moveU :: "face list \<Rightarrow> face list option" where
  "moveU fs0 = do {
     fs \<leftarrow> permFace fs0 0 facePermutation;
     t0 \<leftarrow> rd fs 1 0; t1 \<leftarrow> rd fs 1 1; t2 \<leftarrow> rd fs 1 2;
     fs \<leftarrow> cp fs (1, 0) (2, 0);
     fs \<leftarrow> cp fs (1, 1) (2, 1);
     fs \<leftarrow> cp fs (1, 2) (2, 2);
     fs \<leftarrow> cp fs (2, 0) (3, 0);
     fs \<leftarrow> cp fs (2, 1) (3, 1);
     fs \<leftarrow> cp fs (2, 2) (3, 2);
     fs \<leftarrow> cp fs (3, 0) (4, 0);
     fs \<leftarrow> cp fs (3, 1) (4, 1);
     fs \<leftarrow> cp fs (3, 2) (4, 2);
     fs \<leftarrow> wr fs 4 0 t0;
     fs \<leftarrow> wr fs 4 1 t1;
     fs \<leftarrow> wr fs 4 2 t2;
     Some fs }"

definition moveUPrime :: "face list \<Rightarrow> face list option" where
  "moveUPrime fs0 = do {
     fs \<leftarrow> permFace fs0 0 facePermutationPrime;
     t0 \<leftarrow> rd fs 1 0; t1 \<leftarrow> rd fs 1 1; t2 \<leftarrow> rd fs 1 2;
     fs \<leftarrow> cp fs (1, 0) (4, 0);
     fs \<leftarrow> cp fs (1, 1) (4, 1);
     fs \<leftarrow> cp fs (1, 2) (4, 2);
     fs \<leftarrow> cp fs (4, 0) (3, 0);
     fs \<leftarrow> cp fs (4, 1) (3, 1);
     fs \<leftarrow> cp fs (4, 2) (3, 2);
     fs \<leftarrow> cp fs (3, 0) (2, 0);
     fs \<leftarrow> cp fs (3, 1) (2, 1);
     fs \<leftarrow> cp fs (3, 2) (2, 2);
     fs \<leftarrow> wr fs 2 0 t0;
     fs \<leftarrow> wr fs 2 1 t1;
     fs \<leftarrow> wr fs 2 2 t2;
     Some fs }"

definition moveU2 :: "face list \<Rightarrow> face list option" where
  "moveU2 fs0 = do {
     fs \<leftarrow> permFace fs0 0 facePermutation2;
     t0 \<leftarrow> rd fs 1 0; t1 \<leftarrow> rd fs 1 1; t2 \<leftarrow> rd fs 1 2;
     fs \<leftarrow> cp fs (1, 0) (3, 0);
     fs \<leftarrow> cp fs (1, 1) (3, 1);
     fs \<leftarrow> cp fs (1, 2) (3, 2);
     fs \<leftarrow> wr fs 3 0 t0;
     fs \<leftarrow> wr fs 3 1 t1;
     fs \<leftarrow> wr fs 3 2 t2;
     u0 \<leftarrow> rd fs 2 0; u1 \<leftarrow> rd fs 2 1; u2 \<leftarrow> rd fs 2 2;
     fs \<leftarrow> cp fs (2, 0) (4, 0);
     fs \<leftarrow> cp fs (2, 1) (4, 1);
     fs \<leftarrow> cp fs (2, 2) (4, 2);
     fs \<leftarrow> wr fs 4 0 u0;
     fs \<leftarrow> wr fs 4 1 u1;
     fs \<leftarrow> wr fs 4 2 u2;
     Some fs }"

definition moveD :: "face list \<Rightarrow> face list option" where
  "moveD fs0 = do {
     fs \<leftarrow> permFace fs0 5 facePermutation;
     t0 \<leftarrow> rd fs 1 6; t1 \<leftarrow> rd fs 1 7; t2 \<leftarrow> rd fs 1 8;
     fs \<leftarrow> cp fs (1, 6) (4, 6);
     fs \<leftarrow> cp fs (1, 7) (4, 7);
     fs \<leftarrow> cp fs (1, 8) (4, 8);
     fs \<leftarrow> cp fs (4, 6) (3, 6);
     fs \<leftarrow> cp fs (4, 7) (3, 7);
     fs \<leftarrow> cp fs (4, 8) (3, 8);
     fs \<leftarrow> cp fs (3, 6) (2, 6);
     fs \<leftarrow> cp fs (3, 7) (2, 7);
     fs \<leftarrow> cp fs (3, 8) (2, 8);
     fs \<leftarrow> wr fs 2 6 t0;
     fs \<leftarrow> wr fs 2 7 t1;
     fs \<leftarrow> wr fs 2 8 t2;
     Some fs }"

definition moveDPrime :: "face list \<Rightarrow> face list option" where
  "moveDPrime fs0 = do {
     fs \<leftarrow> permFace fs0 5 facePermutationPrime;
     t0 \<leftarrow> rd fs 1 6; t1 \<leftarrow> rd fs 1 7; t2 \<leftarrow> rd fs 1 8;
     fs \<leftarrow> cp fs (1, 6) (2, 6);
     fs \<leftarrow> cp fs (1, 7) (2, 7);
     fs \<leftarrow> cp fs (1, 8) (2, 8);
     fs \<leftarrow> cp fs (2, 6) (3, 6);
     fs \<leftarrow> cp fs (2, 7) (3, 7);
     fs \<leftarrow> cp fs (2, 8) (3, 8);
     fs \<leftarrow> cp fs (3, 6) (4, 6);
     fs \<leftarrow> cp fs (3, 7) (4, 7);
     fs \<leftarrow> cp fs (3, 8) (4, 8);
     fs \<leftarrow> wr fs 4 6 t0;
     fs \<leftarrow> wr fs 4 7 t1;
     fs \<leftarrow> wr fs 4 8 t2;
     Some fs }"

definition moveD2 :: "face list \<Rightarrow> face list option" where
  "moveD2 fs0 = do {
     fs \<leftarrow> permFace fs0 5 facePermutation2;
     t0 \<leftarrow> rd fs 1 6; t1 \<leftarrow> rd fs 1 7; t2 \<leftarrow> rd fs 1 8;
     fs \<leftarrow> cp fs (1, 6) (3, 6);
     fs \<leftarrow> cp fs (1, 7) (3, 7);
     fs \<leftarrow> cp fs (1, 8) (3, 8);
     fs \<leftarrow> wr fs 3 6 t0;
     fs \<leftarrow> wr fs 3 7 t1;
     fs \<leftarrow> wr fs 3 8 t2;
     u0 \<leftarrow> rd fs 2 6; u1 \<leftarrow> rd fs 2 7; u2 \<leftarrow> rd fs 2 8;
     fs \<leftarrow> cp fs (2, 6) (4, 6);
     fs \<leftarrow> cp fs (2, 7) (4, 7);
     fs \<leftarrow> cp fs (2, 8) (4, 8);
     fs \<leftarrow> wr fs 4 6 u0;
     fs \<leftarrow> wr fs 4 7 u1;
     fs \<leftarrow> wr fs 4 8 u2;
     Some fs }"

definition moveR :: "face list \<Rightarrow> face list option" where
  "moveR fs0 = do {
     fs \<leftarrow> permFace fs0 3 facePermutation;
     t0 \<leftarrow> rd fs 0 2; t1 \<leftarrow> rd fs 0 5; t2 \<leftarrow> rd fs 0 8;
     fs \<leftarrow> cp fs (0, 2) (2, 2);
     fs \<leftarrow> cp fs (0, 5) (2, 5);
     fs \<leftarrow> cp fs (0, 8) (2, 8);
     fs \<leftarrow> cp fs (2, 2) (5, 2);
     fs \<leftarrow> cp fs (2, 5) (5, 5);
     fs \<leftarrow> cp fs (2, 8) (5, 8);
     fs \<leftarrow> cp fs (5, 2) (4, 6);
     fs \<leftarrow> cp fs (5, 5) (4, 3);
     fs \<leftarrow> cp fs (5, 8) (4, 0);
     fs \<leftarrow> wr fs 4 6 t0;
     fs \<leftarrow> wr fs 4 3 t1;
     fs \<leftarrow> wr fs 4 0 t2;
     Some fs }"

definition moveRPrime :: "face list \<Rightarrow> face list option" where
  "moveRPrime fs0 = do {
     fs \<leftarrow> permFace fs0 3 facePermutationPrime;
     t0 \<leftarrow> rd fs 0 2; t1 \<leftarrow> rd fs 0 5; t2 \<leftarrow> rd fs 0 8;
     fs \<leftarrow> cp fs (0, 2) (4, 6);
     fs \<leftarrow> cp fs (0, 5) (4, 3);
     fs \<leftarrow> cp fs (0, 8) (4, 0);
     fs \<leftarrow> cp fs (4, 6) (5, 2);
     fs \<leftarrow> cp fs (4, 3) (5, 5);
     fs \<leftarrow> cp fs (4, 0) (5, 8);
     fs \<leftarrow> cp fs (5, 2) (2, 2);
     fs \<leftarrow> cp fs (5, 5) (2, 5);
     fs \<leftarrow> cp fs (5, 8) (2, 8);
     fs \<leftarrow> wr fs 2 2 t0;
     fs \<leftarrow> wr fs 2 5 t1;
     fs \<leftarrow> wr fs 2 8 t2;
     Some fs }"

definition moveR2 :: "face list \<Rightarrow> face list option" where
  "moveR2 fs0 = do {
     fs \<leftarrow> permFace fs0 3 facePermutation2;
     t0 \<leftarrow> rd fs 0 2; t1 \<leftarrow> rd fs 0 5; t2 \<leftarrow> rd fs 0 8;
     fs \<leftarrow> cp fs (0, 2) (5, 2);
     fs \<leftarrow> cp fs (0, 5) (5, 5);
     fs \<leftarrow> cp fs (0, 8) (5, 8);
     fs \<leftarrow> wr fs 5 2 t0;
     fs \<leftarrow> wr fs 5 5 t1;
     fs \<leftarrow> wr fs 5 8 t2;
     u0 \<leftarrow> rd fs 2 2; u1 \<leftarrow> rd fs 2 5; u2 \<leftarrow> rd fs 2 8;
     fs \<leftarrow> cp fs (2, 2) (4, 6);
     fs \<leftarrow> cp fs (2, 5) (4, 3);
     fs \<leftarrow> cp fs (2, 8) (4, 0);
     fs \<leftarrow> wr fs 4 6 u0;
     fs \<leftarrow> wr fs 4 3 u1;
     fs \<leftarrow> wr fs 4 0 u2;
     Some fs }"

definition moveL :: "face list \<Rightarrow> face list option" where
  "moveL fs0 = do {
     fs \<leftarrow> permFace fs0 1 facePermutation;
     t0 \<leftarrow> rd fs 0 0; t1 \<leftarrow> rd fs 0 3; t2 \<leftarrow> rd fs 0 6;
     fs \<leftarrow> cp fs (0, 0) (4, 8);
     fs \<leftarrow> cp fs (0, 3) (4, 5);
     fs \<leftarrow> cp fs (0, 6) (4, 2);
     fs \<leftarrow> cp fs (4, 8) (5, 0);
     fs \<leftarrow> cp fs (4, 5) (5, 3);
     fs \<leftarrow> cp fs (4, 2) (5, 6);
     fs \<leftarrow> cp fs (5, 0) (2, 0);
     fs \<leftarrow> cp fs (5, 3) (2, 3);
     fs \<leftarrow> cp fs (5, 6) (2, 6);
     fs \<leftarrow> wr fs 2 0 t0;
     fs \<leftarrow> wr fs 2 3 t1;
     fs \<leftarrow> wr fs 2 6 t2;
     Some fs }"

definition moveLPrime :: "face list \<Rightarrow> face list option" where
  "moveLPrime fs0 = do {
     fs \<leftarrow> permFace fs0 1 facePermutationPrime;
     t0 \<leftarrow> rd fs 0 0; t1 \<leftarrow> rd fs 0 3; t2 \<leftarrow> rd fs 0 6;
     fs \<leftarrow> cp fs (0, 0) (2, 0);
     fs \<leftarrow> cp fs (0, 3) (2, 3);
     fs \<leftarrow> cp fs (0, 6) (2, 6);
     fs \<leftarrow> cp fs (2, 0) (5, 0);
     fs \<leftarrow> cp fs (2, 3) (5, 3);
     fs \<leftarrow> cp fs (2, 6) (5, 6);
     fs \<leftarrow> cp fs (5, 0) (4, 8);
     fs \<leftarrow> cp fs (5, 3) (4, 5);
     fs \<leftarrow> cp fs (5, 6) (4, 2);
     fs \<leftarrow> wr fs 4 8 t0;
     fs \<leftarrow> wr fs 4 5 t1;
     fs \<leftarrow> wr fs 4 2 t2;
     Some fs }"

definition moveL2 :: "face list \<Rightarrow> face list option" where
  "moveL2 fs0 = do {
     fs \<leftarrow> permFace fs0 1 facePermutation2;
     t0 \<leftarrow> rd fs 0 0; t1 \<leftarrow> rd fs 0 3; t2 \<leftarrow> rd fs 0 6;
     fs \<leftarrow> cp fs (0, 0) (5, 0);
     fs \<leftarrow> cp fs (0, 3) (5, 3);
     fs \<leftarrow> cp fs (0, 6) (5, 6);
     fs \<leftarrow> wr fs 5 0 t0;
     fs \<leftarrow> wr fs 5 3 t1;
     fs \<leftarrow> wr fs 5 6 t2;
     u0 \<leftarrow> rd fs 2 0; u1 \<leftarrow> rd fs 2 3; u2 \<leftarrow> rd fs 2 6;
     fs \<leftarrow> cp fs (2, 0) (4, 8);
     fs \<leftarrow> cp fs (2, 3) (4, 5);
     fs \<leftarrow> cp fs (2, 6) (4, 2);
     fs \<leftarrow> wr fs 4 8 u0;
     fs \<leftarrow> wr fs 4 5 u1;
     fs \<leftarrow> wr fs 4 2 u2;
     Some fs }"

text \<open>
  The switch on the move string: the twelve cases in the source's order, and no
  \<^verbatim>\<open>default\<close>, so any other string leaves the copied faces as they are.
\<close>

definition moveBody :: "string \<Rightarrow> face list \<Rightarrow> face list option" where
  "moveBody move fs =
     (if move = ''U'' then moveU fs
      else if move = ''U'' @ [CHR 0x27] then moveUPrime fs
      else if move = ''U2'' then moveU2 fs
      else if move = ''D'' then moveD fs
      else if move = ''D'' @ [CHR 0x27] then moveDPrime fs
      else if move = ''D2'' then moveD2 fs
      else if move = ''R'' then moveR fs
      else if move = ''R'' @ [CHR 0x27] then moveRPrime fs
      else if move = ''R2'' then moveR2 fs
      else if move = ''L'' then moveL fs
      else if move = ''L'' @ [CHR 0x27] then moveLPrime fs
      else if move = ''L2'' then moveL2 fs
      else Some fs)"

text \<open>
  \<^verbatim>\<open>applyMove\<close>: \<^verbatim>\<open>cube.faces.map((face) => [...face])\<close> builds the new state from
  copies of the faces, the switch updates the copies, and the new state is returned.
  As a value, a copied face is the face.
\<close>

definition applyMove :: "CubeState \<Rightarrow> string \<Rightarrow> CubeState option" where
  "applyMove cube move = do {
     fs \<leftarrow> moveBody move (map (\<lambda>face. face) (faces cube));
     Some \<lparr> faces = fs \<rparr> }"

text \<open>The move vocabulary, as \<^verbatim>\<open>validMoves\<close> is written in the source.\<close>

definition validMoves :: "string list" where
  "validMoves = [''U'', ''U'' @ [CHR 0x27], ''U2'', ''D'', ''D'' @ [CHR 0x27], ''D2'',
                 ''R'', ''R'' @ [CHR 0x27], ''R2'', ''L'', ''L'' @ [CHR 0x27], ''L2'']"

text \<open>
  Applying a sequence of moves in order, as the scramble loop and the solution playback
  do: each move is applied to the state the previous one returned.
\<close>

fun applyMoves :: "CubeState \<Rightarrow> string list \<Rightarrow> CubeState option" where
  "applyMoves s [] = Some s"
| "applyMoves s (m # ms) = applyMove s m \<bind> (\<lambda>s'. applyMoves s' ms)"

text \<open>
  The inverse of a move token, as the specification pairs them (the source has no such
  function): a quarter turn with its primed turn, a half turn with itself.
\<close>

definition inverseMove :: "string \<Rightarrow> string" where
  "inverseMove m =
     (if m = ''U'' then ''U'' @ [CHR 0x27] else if m = ''U'' @ [CHR 0x27] then ''U''
      else if m = ''D'' then ''D'' @ [CHR 0x27] else if m = ''D'' @ [CHR 0x27] then ''D''
      else if m = ''R'' then ''R'' @ [CHR 0x27] else if m = ''R'' @ [CHR 0x27] then ''R''
      else if m = ''L'' then ''L'' @ [CHR 0x27] else if m = ''L'' @ [CHR 0x27] then ''L''
      else m)"

text \<open>All facelets of a state, face by face.\<close>

definition facelets :: "CubeState \<Rightarrow> facelet list" where
  "facelets s = concat (faces s)"

section \<open>Storage\<close>

text \<open>
  For the statements about mutation and aliasing a state is not a value but an object in
  a store: a cube object holds a reference to its array of faces, which holds references
  to the face arrays. An address is an index into the store and an allocation appends to
  it. An access that does not find the kind of object it expects throws.

  \<^verbatim>\<open>applyMove\<close> on the store: \<^verbatim>\<open>cube.faces.map((face) => [...face])\<close> allocates a copy
  of every face array, in order, then the array of the copies, then the new cube object.
  Every assignment of the switch has the form \<^verbatim>\<open>newCube.faces[a][b] = ...\<close>, and
  \<^verbatim>\<open>applyPermutation\<close> is called on \<^verbatim>\<open>newCube.faces[k]\<close> only, so the switch reads and
  writes the copies and nothing else: its effect is \<open>moveBody\<close> on the contents of the
  copies, stored back at their addresses. When the switch throws, the copies stay
  allocated and nothing is returned.
\<close>

type_synonym addr = nat

datatype obj = Row face | Rows "addr list" | Cube addr

type_synonym store = "obj list"

definition alloc :: "store \<Rightarrow> obj \<Rightarrow> store \<times> addr" where
  "alloc h ob = (h @ [ob], length h)"

definition rowAt :: "store \<Rightarrow> addr \<Rightarrow> face option" where
  "rowAt h a =
     (if a < length h then (case h ! a of Row xs \<Rightarrow> Some xs | Rows as \<Rightarrow> None | Cube r \<Rightarrow> None)
      else None)"

definition rowsAt :: "store \<Rightarrow> addr \<Rightarrow> addr list option" where
  "rowsAt h a =
     (if a < length h then (case h ! a of Rows as \<Rightarrow> Some as | Row xs \<Rightarrow> None | Cube r \<Rightarrow> None)
      else None)"

definition facesOf :: "store \<Rightarrow> addr \<Rightarrow> addr option" where
  "facesOf h a =
     (if a < length h then (case h ! a of Cube r \<Rightarrow> Some r | Row xs \<Rightarrow> None | Rows as \<Rightarrow> None)
      else None)"

fun readRows :: "store \<Rightarrow> addr list \<Rightarrow> face list option" where
  "readRows h [] = Some []"
| "readRows h (a # as) = do { xs \<leftarrow> rowAt h a; fs \<leftarrow> readRows h as; Some (xs # fs) }"

text \<open>The state, as a value, that the cube object at an address holds.\<close>

definition readCube :: "store \<Rightarrow> addr \<Rightarrow> CubeState option" where
  "readCube h c = do {
     r \<leftarrow> facesOf h c;
     as \<leftarrow> rowsAt h r;
     fs \<leftarrow> readRows h as;
     Some \<lparr> faces = fs \<rparr> }"

text \<open>The addresses a cube object is made of: itself, its array of faces, its faces.\<close>

definition storageOf :: "store \<Rightarrow> addr \<Rightarrow> addr list" where
  "storageOf h c =
     (case facesOf h c of
        None \<Rightarrow> [c]
      | Some r \<Rightarrow> c # r # (case rowsAt h r of None \<Rightarrow> [] | Some as \<Rightarrow> as))"

fun copyRows :: "store \<Rightarrow> addr list \<Rightarrow> (store \<times> addr list) option" where
  "copyRows h [] = Some (h, [])"
| "copyRows h (a # as) = do {
     xs \<leftarrow> rowAt h a;
     (h1, a') \<leftarrow> Some (alloc h (Row xs));
     (h2, as') \<leftarrow> copyRows h1 as;
     Some (h2, a' # as') }"

fun storeRows :: "store \<Rightarrow> addr list \<Rightarrow> face list \<Rightarrow> store" where
  "storeRows h (a # as) (f # fs) = storeRows (h[a := Row f]) as fs"
| "storeRows h [] fs = h"
| "storeRows h as [] = h"

definition applyMoveS :: "store \<Rightarrow> addr \<Rightarrow> string \<Rightarrow> store \<times> addr option" where
  "applyMoveS h cube move =
     (case do { r \<leftarrow> facesOf h cube; as \<leftarrow> rowsAt h r; copyRows h as } of
        None \<Rightarrow> (h, None)
      | Some (h1, as') \<Rightarrow>
          let (h2, r') = alloc h1 (Rows as');
              (h3, newCube) = alloc h2 (Cube r')
          in (case readRows h3 as' \<bind> moveBody move of
                None \<Rightarrow> (h3, None)
              | Some fs' \<Rightarrow> (storeRows h3 as' fs', Some newCube)))"

section \<open>Canonical key\<close>

text \<open>
  \<^verbatim>\<open>Array.prototype.join\<close>: the elements' strings with the separator between them;
  an empty array gives the empty string, \<^verbatim>\<open>undefined\<close> is rendered as the empty string,
  and an integer as its decimal digits (with a minus sign when negative; JavaScript
  prints integers this way up to a magnitude of \<open>10^21\<close>).
\<close>

fun natToString :: "nat \<Rightarrow> string" where
  "natToString n =
     (if n < 10 then [''0123456789'' ! n]
      else natToString (n div 10) @ [''0123456789'' ! (n mod 10)])"

definition numToString :: "int \<Rightarrow> string" where
  "numToString i = (if i < 0 then ''-'' @ natToString (nat (- i)) else natToString (nat i))"

fun faceletToString :: "facelet \<Rightarrow> string" where
  "faceletToString (Num i) = numToString i"
| "faceletToString Undefined = []"

fun joinWith :: "string \<Rightarrow> string list \<Rightarrow> string" where
  "joinWith sep [] = []"
| "joinWith sep [x] = x"
| "joinWith sep (x # y # ys) = x @ sep @ joinWith sep (y # ys)"

definition hashCubeState :: "CubeState \<Rightarrow> string" where
  "hashCubeState cube =
     joinWith ''|'' (map (\<lambda>face. joinWith [] (map faceletToString face)) (faces cube))"

text \<open>A state whose facelet values are all single-digit integers, 0 to 9.\<close>

fun singleDigitFacelet :: "facelet \<Rightarrow> bool" where
  "singleDigitFacelet (Num d) = (0 \<le> d \<and> d < 10)"
| "singleDigitFacelet Undefined = False"

definition singleDigit :: "CubeState \<Rightarrow> bool" where
  "singleDigit s \<longleftrightarrow> list_all singleDigitFacelet (facelets s)"

section \<open>Goal test and local heuristic\<close>

text \<open>The index pairs the two nested loops run through, in their order.\<close>

definition cellIndices :: "(nat \<times> nat) list" where
  "cellIndices = List.product [0..<6] [0..<9]"

text \<open>
  \<^verbatim>\<open>current.faces[i][j] !== goal.faces[i][j]\<close>; on integers and \<^verbatim>\<open>undefined\<close> strict
  inequality is inequality of the values.
\<close>

definition cellDiffers :: "CubeState \<Rightarrow> CubeState \<Rightarrow> nat \<Rightarrow> nat \<Rightarrow> bool option" where
  "cellDiffers current goal i j = do {
     a \<leftarrow> rd (faces current) i j;
     b \<leftarrow> rd (faces goal) i j;
     Some (a \<noteq> b) }"

text \<open>\<^verbatim>\<open>isGoal\<close> returns \<^verbatim>\<open>false\<close> at the first cell that differs.\<close>

fun isGoalFrom :: "CubeState \<Rightarrow> CubeState \<Rightarrow> (nat \<times> nat) list \<Rightarrow> bool option" where
  "isGoalFrom current goal [] = Some True"
| "isGoalFrom current goal ((i, j) # ps) = do {
     d \<leftarrow> cellDiffers current goal i j;
     if d then Some False else isGoalFrom current goal ps }"

definition isGoal :: "CubeState \<Rightarrow> CubeState \<Rightarrow> bool option" where
  "isGoal current goal = isGoalFrom current goal cellIndices"

fun countDisplaced :: "CubeState \<Rightarrow> CubeState \<Rightarrow> (nat \<times> nat) list \<Rightarrow> nat \<Rightarrow> nat option" where
  "countDisplaced current goal [] displacedCount = Some displacedCount"
| "countDisplaced current goal ((face, sticker) # ps) displacedCount = do {
     d \<leftarrow> cellDiffers current goal face sticker;
     countDisplaced current goal ps (if d then displacedCount + 1 else displacedCount) }"

text \<open>\<^verbatim>\<open>Math.ceil(displacedCount / 8)\<close> on a count is \<open>(displacedCount + 7) div 8\<close>.\<close>

definition getDisplacedPiecesHeuristic :: "CubeState \<Rightarrow> CubeState \<Rightarrow> nat option" where
  "getDisplacedPiecesHeuristic current goal = do {
     displacedCount \<leftarrow> countDisplaced current goal cellIndices 0;
     Some ((displacedCount + 7) div 8) }"

section \<open>Oracle heuristic\<close>

definition faceNames :: "string list" where
  "faceNames = [''Up(White)'', ''Left(Orange)'', ''Front(Green)'', ''Right(Red)'',
                ''Back(Blue)'', ''Down(Yellow)'']"

definition colorNames :: "string list" where
  "colorNames = [''W'', ''O'', ''G'', ''R'', ''B'', ''Y'']"

text \<open>
  \<^verbatim>\<open>colorNames[v]\<close> appended to a string: a value that is not an index of
  \<open>colorNames\<close> reads \<^verbatim>\<open>undefined\<close>, which the concatenation prints as such.
\<close>

fun colorName :: "facelet \<Rightarrow> string" where
  "colorName (Num v) =
     (if 0 \<le> v \<and> v < 6 then colorNames ! nat v else ''undefined'')"
| "colorName Undefined = ''undefined''"

definition formatFace :: "face \<Rightarrow> string" where
  "formatFace f =
     concat (map (\<lambda>j. colorName (arrGet f j) @ (if (j + 1) mod 3 = 0 then '' '' else []))
                 [0..<9])"

fun formatFaces :: "face list \<Rightarrow> nat list \<Rightarrow> string \<Rightarrow> string option" where
  "formatFaces fs [] formatted = Some formatted"
| "formatFaces fs (i # is) formatted = do {
     f \<leftarrow> faceAt fs i;
     formatFaces fs is (formatted @ faceNames ! i @ '': '' @ formatFace f @ [CHR 0x0A]) }"

definition formatCubeStateForAI :: "CubeState \<Rightarrow> string option" where
  "formatCubeStateForAI cube =
     formatFaces (faces cube) [0..<6] (''Rubik'' @ [CHR 0x27] @ ''s Cube State:'' @ [CHR 0x0A])"

text \<open>The prompt of \<^verbatim>\<open>getAIEnhancedHeuristic\<close>, line by line.\<close>

definition prompt :: "string \<Rightarrow> string" where
  "prompt formatted =
     [CHR 0x0A]
   @ ''You are an expert Rubik'' @ [CHR 0x27]
   @ ''s cube solver AI. Analyze this cube state and provide a heuristic estimate.''
   @ [CHR 0x0A, CHR 0x0A]
   @ formatted @ [CHR 0x0A, CHR 0x0A]
   @ ''SOLVED STATE (goal):'' @ [CHR 0x0A]
   @ ''Up(White): W W W '' @ [CHR 0x0A]
   @ ''Left(Orange): O O O '' @ [CHR 0x0A]
   @ ''Front(Green): G G G '' @ [CHR 0x0A]
   @ ''Right(Red): R R R '' @ [CHR 0x0A]
   @ ''Back(Blue): B B B '' @ [CHR 0x0A]
   @ ''Down(Yellow): Y Y Y '' @ [CHR 0x0A, CHR 0x0A]
   @ ''Please analyze:'' @ [CHR 0x0A]
   @ ''1. How many pieces are displaced from their correct positions?'' @ [CHR 0x0A]
   @ ''2. How many moves do you estimate it would take to solve this cube?'' @ [CHR 0x0A]
   @ ''3. Consider piece relationships and cube solving patterns.'' @ [CHR 0x0A, CHR 0x0A]
   @ ''Respond with ONLY a single number representing your best estimate of moves ''
   @ ''needed to solve this cube state. Be conservative - it'' @ [CHR 0x27]
   @ ''s better to slightly underestimate than overestimate.'' @ [CHR 0x0A]"

text \<open>
  \<^verbatim>\<open>Number.parseInt(response.match(/\d+/)?.[0] || "0")\<close>: the first maximal run of
  decimal digits of the response, read as a number; \<open>0\<close> when there is none. (A run too
  long for a JavaScript number to hold exactly still reads as a value of 50 or more, so
  the test below takes the same branch.)
\<close>

definition isDigit :: "char \<Rightarrow> bool" where
  "isDigit c \<longleftrightarrow> c \<in> set ''0123456789''"

definition firstDigits :: "string \<Rightarrow> string" where
  "firstDigits response = takeWhile isDigit (dropWhile (\<lambda>c. \<not> isDigit c) response)"

definition digitValue :: "char \<Rightarrow> nat" where
  "digitValue c = of_char c - 48"

definition parseDigits :: "string \<Rightarrow> nat" where
  "parseDigits ds = foldl (\<lambda>n c. 10 * n + digitValue c) 0 ds"

definition parseEstimate :: "string \<Rightarrow> nat" where
  "parseEstimate response =
     (let m = firstDigits response in parseDigits (if m = [] then ''0'' else m))"

text \<open>
  The module-level state of the heuristic provider: the call counter and the cache. The
  oracle is outside the program: it is a function from the number of requests made
  before and the prompt to what becomes of the request. The request is answered with a
  text, or it fails in any way (the \<^verbatim>\<open>catch\<close> branch), or it never settles: the code
  awaits \<^verbatim>\<open>model.generateContent(prompt)\<close> with no timeout of its own, so the
  \<^verbatim>\<open>await\<close> then never returns. \<open>oracleRequests\<close> records the prompts sent, so that a
  request is visible in the state. \<open>genAI\<close> is \<open>None\<close> when no oracle is configured.

  What comes of awaiting an \<^verbatim>\<open>async\<close> call is a value, an exception, or nothing at
  all; \<open>ofSync\<close> is a synchronous result seen this way.
\<close>

datatype reply = Response string | Failure | NoReply

datatype 'a awaited = Returned 'a | Threw | Unsettled

fun ofSync :: "'a option \<Rightarrow> 'a awaited" where
  "ofSync (Some v) = Returned v"
| "ofSync None = Threw"

record HeuristicState =
  heuristicCallCount :: nat
  aiHeuristicCache :: "string \<rightharpoonup> nat"
  oracleRequests :: "string list"

type_synonym oracleFn = "nat \<Rightarrow> string \<Rightarrow> reply"

definition getAIEnhancedHeuristic ::
  "oracleFn option \<Rightarrow> HeuristicState \<Rightarrow> CubeState \<Rightarrow> CubeState \<Rightarrow> nat awaited \<times> HeuristicState"
where
  "getAIEnhancedHeuristic genAI hs current goal =
     (case genAI of
        None \<Rightarrow> (ofSync (getDisplacedPiecesHeuristic current goal), hs)
      | Some ask \<Rightarrow>
          let stateKey = hashCubeState current in
          (case aiHeuristicCache hs stateKey of
             Some cached \<Rightarrow> (Returned cached, hs)
           | None \<Rightarrow>
               (case formatCubeStateForAI current of
                  None \<Rightarrow> (ofSync (getDisplacedPiecesHeuristic current goal), hs)
                | Some formatted \<Rightarrow>
                    let hs1 = hs\<lparr> oracleRequests := oracleRequests hs @ [prompt formatted] \<rparr> in
                    (case ask (length (oracleRequests hs)) (prompt formatted) of
                       NoReply \<Rightarrow> (Unsettled, hs1)
                     | Failure \<Rightarrow> (ofSync (getDisplacedPiecesHeuristic current goal), hs1)
                     | Response response \<Rightarrow>
                         let aiEstimate = parseEstimate response in
                         if 0 < aiEstimate \<and> aiEstimate < 50
                         then (Returned aiEstimate,
                               hs1\<lparr> aiHeuristicCache :=
                                      (aiHeuristicCache hs1)(stateKey \<mapsto> aiEstimate) \<rparr>)
                         else (ofSync (getDisplacedPiecesHeuristic current goal), hs1)))))"

definition getSmartHeuristic ::
  "oracleFn option \<Rightarrow> HeuristicState \<Rightarrow> CubeState \<Rightarrow> CubeState \<Rightarrow> nat awaited \<times> HeuristicState"
where
  "getSmartHeuristic genAI hs current goal =
     (let hs1 = hs\<lparr> heuristicCallCount := heuristicCallCount hs + 1 \<rparr> in
      if heuristicCallCount hs1 mod 15 = 0 \<and> genAI \<noteq> None
      then getAIEnhancedHeuristic genAI hs1 current goal
      else (ofSync (getDisplacedPiecesHeuristic current goal), hs1))"

text \<open>Every request to the oracle settles, with a response or a failure.\<close>

definition settles :: "oracleFn option \<Rightarrow> bool" where
  "settles genAI \<longleftrightarrow> (\<forall>ask n p. genAI = Some ask \<longrightarrow> ask n p \<noteq> NoReply)"

text \<open>An oracle whose requests never settle.\<close>

definition silentOracle :: oracleFn where
  "silentOracle n p = NoReply"

section \<open>Scramble generator\<close>

text \<open>
  \<^verbatim>\<open>scrambleCube\<close>, with the values of \<^verbatim>\<open>Math.floor(Math.random() * 12)\<close> of the
  successive iterations given as a list (each is below 12); the list's length is the
  number of moves asked for.
\<close>

fun scrambleLoop :: "nat list \<Rightarrow> CubeState \<Rightarrow> string list \<Rightarrow> (CubeState \<times> string list) option" where
  "scrambleLoop [] state appliedMoves = Some (state, appliedMoves)"
| "scrambleLoop (r # rs) state appliedMoves = do {
     state' \<leftarrow> applyMove state (validMoves ! r);
     scrambleLoop rs state' (appliedMoves @ [validMoves ! r]) }"

definition scrambleCube :: "nat list \<Rightarrow> (CubeState \<times> string list) option" where
  "scrambleCube picks = scrambleLoop picks createSolvedCube []"

section \<open>Search engine\<close>

record State =
  cube :: CubeState
  gScore :: nat
  hScore :: nat
  fScore :: nat
  moves :: "string list"

record SolveResult =
  moves :: "string list"
  statesExplored :: nat
  timeMs :: int

text \<open>
  What one call of \<^verbatim>\<open>solveCube\<close> works on: the frontier, the visited set and the state
  of the heuristic provider (module-level in the source; no other call of
  \<^verbatim>\<open>solveCube\<close> is taken to run in between). What it takes from outside: the oracle and
  the two readings of the clock, at the start and when the promise is resolved.
\<close>

record Search =
  openSet :: "State list"
  visited :: "string set"
  heur :: HeuristicState

record Env =
  genAI :: "oracleFn option"
  startTime :: int
  resolveTime :: int

text \<open>
  The loop over \<open>validMoves\<close> in \<^verbatim>\<open>processNextState\<close>: a neighbour whose key is not
  visited is scored and pushed at the end of the frontier.
\<close>

fun expand ::
  "oracleFn option \<Rightarrow> CubeState \<Rightarrow> State \<Rightarrow> string set \<Rightarrow> string list
     \<Rightarrow> State list \<times> HeuristicState \<Rightarrow> (State list \<times> HeuristicState) awaited"
where
  "expand ai goalCube currentState vis [] acc = Returned acc"
| "expand ai goalCube currentState vis (move # ms) (frontier, hs) =
     (case applyMove (cube currentState) move of
        None \<Rightarrow> Threw
      | Some neighborCube \<Rightarrow>
          if hashCubeState neighborCube \<notin> vis then
            (case getSmartHeuristic ai hs neighborCube goalCube of
               (Threw, hs') \<Rightarrow> Threw
             | (Unsettled, hs') \<Rightarrow> Unsettled
             | (Returned h, hs') \<Rightarrow>
                 expand ai goalCube currentState vis ms
                   (frontier @ [\<lparr> cube = neighborCube,
                               gScore = gScore currentState + 1,
                               hScore = h,
                               fScore = gScore currentState + 1 + h,
                               moves = State.moves currentState @ [move] \<rparr>], hs'))
          else expand ai goalCube currentState vis ms (frontier, hs))"

text \<open>
  One run of \<^verbatim>\<open>processNextState\<close>. It resolves the promise, or schedules itself again
  (\<^verbatim>\<open>setTimeout(processNextState, 0)\<close>) on the updated frontier and visited set, or
  throws, or stalls on a request that never settles. An exception inside this
  \<^verbatim>\<open>async\<close> function rejects a promise nobody awaits; after it, as after a stall, the
  promise of \<^verbatim>\<open>solveCube\<close> is never settled.
  \<^verbatim>\<open>openSet.sort((a, b) => a.fScore - b.fScore)\<close> is a stable sort by \<open>fScore\<close>.
\<close>

datatype outcome = Resolved SolveResult | Scheduled Search | Thrown | Stalled

definition processNextState :: "Env \<Rightarrow> CubeState \<Rightarrow> Search \<Rightarrow> outcome" where
  "processNextState env goalCube st =
     (if openSet st = [] then
        Resolved \<lparr> moves = [], statesExplored = card (visited st),
                   timeMs = resolveTime env - startTime env \<rparr>
      else
        let sorted = sort_key fScore (openSet st);
            currentState = hd sorted;
            rest = tl sorted;
            currentHash = hashCubeState (cube currentState)
        in
          if currentHash \<in> visited st then Scheduled (st\<lparr> openSet := rest \<rparr>)
          else
            let visited' = insert currentHash (visited st) in
            (case isGoal (cube currentState) goalCube of
               None \<Rightarrow> Thrown
             | Some True \<Rightarrow>
                 Resolved \<lparr> moves = State.moves currentState, statesExplored = card visited',
                            timeMs = resolveTime env - startTime env \<rparr>
             | Some False \<Rightarrow>
                 (case expand (genAI env) goalCube currentState visited' validMoves
                         (rest, heur st) of
                    Threw \<Rightarrow> Thrown
                  | Unsettled \<Rightarrow> Stalled
                  | Returned (frontier', hs') \<Rightarrow>
                      Scheduled \<lparr> openSet = frontier', visited = visited', heur = hs' \<rparr>)))"

text \<open>
  The chain of \<^verbatim>\<open>processNextState\<close> calls. The value is \<open>Some\<close> of the result the
  promise is resolved with, and \<open>None\<close> when the promise is never resolved: the chain
  goes on for ever, or a call throws or stalls.
\<close>

partial_function (option) searchLoop :: "Env \<Rightarrow> CubeState \<Rightarrow> Search \<Rightarrow> SolveResult option" where
  "searchLoop env goalCube st =
     (case processNextState env goalCube st of
        Resolved r \<Rightarrow> Some r
      | Scheduled st' \<Rightarrow> searchLoop env goalCube st'
      | Thrown \<Rightarrow> None
      | Stalled \<Rightarrow> None)"

declare searchLoop.simps [code]

text \<open>
  \<^verbatim>\<open>solveCube\<close>: the counter and the cache are reset, the start node is scored and
  pushed, and the chain starts. The executor of the promise is an \<^verbatim>\<open>async\<close> function
  that is given \<^verbatim>\<open>resolve\<close> only, so the promise has no \<^verbatim>\<open>reject\<close> path: when scoring
  the start node throws or stalls, the promise stays pending.
\<close>

definition solveCube :: "Env \<Rightarrow> CubeState \<Rightarrow> CubeState \<Rightarrow> SolveResult option" where
  "solveCube env scrambledCube goalCube =
     (case getSmartHeuristic (genAI env)
             \<lparr> heuristicCallCount = 0, aiHeuristicCache = Map.empty, oracleRequests = [] \<rparr>
             scrambledCube goalCube of
        (Threw, hs) \<Rightarrow> None
      | (Unsettled, hs) \<Rightarrow> None
      | (Returned h, hs) \<Rightarrow>
          searchLoop env goalCube
            \<lparr> openSet = [\<lparr> cube = scrambledCube, gScore = 0, hScore = h, fScore = 0 + h,
                           moves = [] \<rparr>],
              visited = {}, heur = hs \<rparr>)"

section \<open>Notions for the statements about a search\<close>

text \<open>
  For statements about a whole search: the search state after \<open>n\<close> rescheduled calls of
  \<^verbatim>\<open>processNextState\<close>, and the state that a call expands, which is the popped node's
  state when its key is not visited yet (it is then marked, tested against the goal and,
  if it is not the goal, its neighbours are generated).
\<close>

fun afterSteps :: "Env \<Rightarrow> CubeState \<Rightarrow> nat \<Rightarrow> Search \<Rightarrow> Search option" where
  "afterSteps env goalCube 0 st = Some st"
| "afterSteps env goalCube (Suc n) st =
     (case processNextState env goalCube st of
        Scheduled st' \<Rightarrow> afterSteps env goalCube n st'
      | Resolved r \<Rightarrow> None
      | Thrown \<Rightarrow> None
      | Stalled \<Rightarrow> None)"

definition expandedCube :: "Search \<Rightarrow> CubeState option" where
  "expandedCube st =
     (if openSet st = [] then None
      else
        let currentState = hd (sort_key fScore (openSet st)) in
        if hashCubeState (cube currentState) \<in> visited st then None
        else Some (cube currentState))"

text \<open>The search state \<^verbatim>\<open>solveCube\<close> starts the chain on, for a start node scored \<open>h\<close>.\<close>

definition initialSearch :: "CubeState \<Rightarrow> nat \<Rightarrow> HeuristicState \<Rightarrow> Search" where
  "initialSearch scrambledCube h hs =
     \<lparr> openSet = [\<lparr> cube = scrambledCube, gScore = 0, hScore = h, fScore = 0 + h,
                    moves = [] \<rparr>],
       visited = {}, heur = hs \<rparr>"

text \<open>Every node of the frontier carries the moves that lead from the start to its state.\<close>

definition pathsOk :: "CubeState \<Rightarrow> Search \<Rightarrow> bool" where
  "pathsOk scrambled st \<longleftrightarrow>
     (\<forall>n \<in> set (openSet st). applyMoves scrambled (State.moves n) = Some (cube n))"

text \<open>The states expanded by the first \<open>n\<close> calls of a search started on \<open>st0\<close>.\<close>

fun expandedBy :: "Env \<Rightarrow> CubeState \<Rightarrow> Search \<Rightarrow> nat \<Rightarrow> CubeState set" where
  "expandedBy env goalCube st0 0 = {}"
| "expandedBy env goalCube st0 (Suc n) =
     expandedBy env goalCube st0 n
       \<union> set_option (afterSteps env goalCube n st0 \<bind> expandedCube)"

text \<open>
  Every node of the frontier holds a state of six faces of nine facelets whose values
  are among \<open>A\<close>.
\<close>

definition frontierWithin :: "facelet set \<Rightarrow> Search \<Rightarrow> bool" where
  "frontierWithin A st \<longleftrightarrow>
     (\<forall>n \<in> set (openSet st). wellFormed (cube n) \<and> set (facelets (cube n)) \<subseteq> A)"

text \<open>The keys of all such states.\<close>

definition keysWithin :: "facelet set \<Rightarrow> string set" where
  "keysWithin A = hashCubeState ` {s. wellFormed s \<and> set (facelets s) \<subseteq> A}"

section \<open>The moves on a six-by-nine grid\<close>

lemma list_update_Cons_numeral:
  "(x # xs)[numeral v := y] = x # xs[numeral v - 1 := y]"
  by (simp add: list_update_code numeral_eq_Suc)

lemma arrGet_grid:
  "arrGet [x0, x1, x2, x3, x4, x5, x6, x7, x8] 0 = x0"
  "arrGet [x0, x1, x2, x3, x4, x5, x6, x7, x8] (Suc 0) = x1"
  "arrGet [x0, x1, x2, x3, x4, x5, x6, x7, x8] 2 = x2"
  "arrGet [x0, x1, x2, x3, x4, x5, x6, x7, x8] 3 = x3"
  "arrGet [x0, x1, x2, x3, x4, x5, x6, x7, x8] 4 = x4"
  "arrGet [x0, x1, x2, x3, x4, x5, x6, x7, x8] 5 = x5"
  "arrGet [x0, x1, x2, x3, x4, x5, x6, x7, x8] 6 = x6"
  "arrGet [x0, x1, x2, x3, x4, x5, x6, x7, x8] 7 = x7"
  "arrGet [x0, x1, x2, x3, x4, x5, x6, x7, x8] 8 = x8"
  by (simp_all add: arrGet_def)

lemma arrSet_grid:
  "arrSet [x0, x1, x2, x3, x4, x5, x6, x7, x8] 0 v = [v, x1, x2, x3, x4, x5, x6, x7, x8]"
  "arrSet [x0, x1, x2, x3, x4, x5, x6, x7, x8] (Suc 0) v = [x0, v, x2, x3, x4, x5, x6, x7, x8]"
  "arrSet [x0, x1, x2, x3, x4, x5, x6, x7, x8] 2 v = [x0, x1, v, x3, x4, x5, x6, x7, x8]"
  "arrSet [x0, x1, x2, x3, x4, x5, x6, x7, x8] 3 v = [x0, x1, x2, v, x4, x5, x6, x7, x8]"
  "arrSet [x0, x1, x2, x3, x4, x5, x6, x7, x8] 4 v = [x0, x1, x2, x3, v, x5, x6, x7, x8]"
  "arrSet [x0, x1, x2, x3, x4, x5, x6, x7, x8] 5 v = [x0, x1, x2, x3, x4, v, x6, x7, x8]"
  "arrSet [x0, x1, x2, x3, x4, x5, x6, x7, x8] 6 v = [x0, x1, x2, x3, x4, x5, v, x7, x8]"
  "arrSet [x0, x1, x2, x3, x4, x5, x6, x7, x8] 7 v = [x0, x1, x2, x3, x4, x5, x6, v, x8]"
  "arrSet [x0, x1, x2, x3, x4, x5, x6, x7, x8] 8 v = [x0, x1, x2, x3, x4, x5, x6, x7, v]"
  by (simp_all add: arrSet_def list_update_Cons_numeral)

lemma rd_grid:
  "rd [A, B, C, D, E, F] 0 j = Some (arrGet A j)"
  "rd [A, B, C, D, E, F] (Suc 0) j = Some (arrGet B j)"
  "rd [A, B, C, D, E, F] 2 j = Some (arrGet C j)"
  "rd [A, B, C, D, E, F] 3 j = Some (arrGet D j)"
  "rd [A, B, C, D, E, F] 4 j = Some (arrGet E j)"
  "rd [A, B, C, D, E, F] 5 j = Some (arrGet F j)"
  by (simp_all add: rd_def faceAt_def)

lemma wr_grid:
  "wr [A, B, C, D, E, F] 0 j v = Some [arrSet A j v, B, C, D, E, F]"
  "wr [A, B, C, D, E, F] (Suc 0) j v = Some [A, arrSet B j v, C, D, E, F]"
  "wr [A, B, C, D, E, F] 2 j v = Some [A, B, arrSet C j v, D, E, F]"
  "wr [A, B, C, D, E, F] 3 j v = Some [A, B, C, arrSet D j v, E, F]"
  "wr [A, B, C, D, E, F] 4 j v = Some [A, B, C, D, arrSet E j v, F]"
  "wr [A, B, C, D, E, F] 5 j v = Some [A, B, C, D, E, arrSet F j v]"
  by (simp_all add: wr_def faceAt_def list_update_Cons_numeral)

lemma permFace_grid:
  "permFace [A, B, C, D, E, F] 0 p = Some [applyPermutation A p, B, C, D, E, F]"
  "permFace [A, B, C, D, E, F] (Suc 0) p = Some [A, applyPermutation B p, C, D, E, F]"
  "permFace [A, B, C, D, E, F] 2 p = Some [A, B, applyPermutation C p, D, E, F]"
  "permFace [A, B, C, D, E, F] 3 p = Some [A, B, C, applyPermutation D p, E, F]"
  "permFace [A, B, C, D, E, F] 4 p = Some [A, B, C, D, applyPermutation E p, F]"
  "permFace [A, B, C, D, E, F] 5 p = Some [A, B, C, D, E, applyPermutation F p]"
  by (simp_all add: permFace_def faceAt_def list_update_Cons_numeral)

lemma applyPermutation_grid:
  "applyPermutation [x0, x1, x2, x3, x4, x5, x6, x7, x8] facePermutation = [x6, x3, x0, x7, x4, x1, x8, x5, x2]"
  "applyPermutation [x0, x1, x2, x3, x4, x5, x6, x7, x8] facePermutationPrime = [x2, x5, x8, x1, x4, x7, x0, x3, x6]"
  "applyPermutation [x0, x1, x2, x3, x4, x5, x6, x7, x8] facePermutation2 = [x8, x7, x6, x5, x4, x3, x2, x1, x0]"
  by (simp_all add: applyPermutation_def arrGet_def arrSet_def list_update_Cons_numeral
      facePermutation_def facePermutationPrime_def facePermutation2_def)

lemmas cell_grid = cp_def rd_grid wr_grid arrGet_grid arrSet_grid permFace_grid applyPermutation_grid

lemma moveU_grid:
  "moveU
     [[a0, a1, a2, a3, a4, a5, a6, a7, a8],
      [b0, b1, b2, b3, b4, b5, b6, b7, b8],
      [c0, c1, c2, c3, c4, c5, c6, c7, c8],
      [d0, d1, d2, d3, d4, d5, d6, d7, d8],
      [e0, e1, e2, e3, e4, e5, e6, e7, e8],
      [f0, f1, f2, f3, f4, f5, f6, f7, f8]] =
   Some
     [[a6, a3, a0, a7, a4, a1, a8, a5, a2],
      [c0, c1, c2, b3, b4, b5, b6, b7, b8],
      [d0, d1, d2, c3, c4, c5, c6, c7, c8],
      [e0, e1, e2, d3, d4, d5, d6, d7, d8],
      [b0, b1, b2, e3, e4, e5, e6, e7, e8],
      [f0, f1, f2, f3, f4, f5, f6, f7, f8]]"
  by (simp add: moveU_def cell_grid)

lemma moveUPrime_grid:
  "moveUPrime
     [[a0, a1, a2, a3, a4, a5, a6, a7, a8],
      [b0, b1, b2, b3, b4, b5, b6, b7, b8],
      [c0, c1, c2, c3, c4, c5, c6, c7, c8],
      [d0, d1, d2, d3, d4, d5, d6, d7, d8],
      [e0, e1, e2, e3, e4, e5, e6, e7, e8],
      [f0, f1, f2, f3, f4, f5, f6, f7, f8]] =
   Some
     [[a2, a5, a8, a1, a4, a7, a0, a3, a6],
      [e0, e1, e2, b3, b4, b5, b6, b7, b8],
      [b0, b1, b2, c3, c4, c5, c6, c7, c8],
      [c0, c1, c2, d3, d4, d5, d6, d7, d8],
      [d0, d1, d2, e3, e4, e5, e6, e7, e8],
      [f0, f1, f2, f3, f4, f5, f6, f7, f8]]"
  by (simp add: moveUPrime_def cell_grid)

lemma moveU2_grid:
  "moveU2
     [[a0, a1, a2, a3, a4, a5, a6, a7, a8],
      [b0, b1, b2, b3, b4, b5, b6, b7, b8],
      [c0, c1, c2, c3, c4, c5, c6, c7, c8],
      [d0, d1, d2, d3, d4, d5, d6, d7, d8],
      [e0, e1, e2, e3, e4, e5, e6, e7, e8],
      [f0, f1, f2, f3, f4, f5, f6, f7, f8]] =
   Some
     [[a8, a7, a6, a5, a4, a3, a2, a1, a0],
      [d0, d1, d2, b3, b4, b5, b6, b7, b8],
      [e0, e1, e2, c3, c4, c5, c6, c7, c8],
      [b0, b1, b2, d3, d4, d5, d6, d7, d8],
      [c0, c1, c2, e3, e4, e5, e6, e7, e8],
      [f0, f1, f2, f3, f4, f5, f6, f7, f8]]"
  by (simp add: moveU2_def cell_grid)

lemma moveD_grid:
  "moveD
     [[a0, a1, a2, a3, a4, a5, a6, a7, a8],
      [b0, b1, b2, b3, b4, b5, b6, b7, b8],
      [c0, c1, c2, c3, c4, c5, c6, c7, c8],
      [d0, d1, d2, d3, d4, d5, d6, d7, d8],
      [e0, e1, e2, e3, e4, e5, e6, e7, e8],
      [f0, f1, f2, f3, f4, f5, f6, f7, f8]] =
   Some
     [[a0, a1, a2, a3, a4, a5, a6, a7, a8],
      [b0, b1, b2, b3, b4, b5, e6, e7, e8],
      [c0, c1, c2, c3, c4, c5, b6, b7, b8],
      [d0, d1, d2, d3, d4, d5, c6, c7, c8],
      [e0, e1, e2, e3, e4, e5, d6, d7, d8],
      [f6, f3, f0, f7, f4, f1, f8, f5, f2]]"
  by (simp add: moveD_def cell_grid)

lemma moveDPrime_grid:
  "moveDPrime
     [[a0, a1, a2, a3, a4, a5, a6, a7, a8],
      [b0, b1, b2, b3, b4, b5, b6, b7, b8],
      [c0, c1, c2, c3, c4, c5, c6, c7, c8],
      [d0, d1, d2, d3, d4, d5, d6, d7, d8],
      [e0, e1, e2, e3, e4, e5, e6, e7, e8],
      [f0, f1, f2, f3, f4, f5, f6, f7, f8]] =
   Some
     [[a0, a1, a2, a3, a4, a5, a6, a7, a8],
      [b0, b1, b2, b3, b4, b5, c6, c7, c8],
      [c0, c1, c2, c3, c4, c5, d6, d7, d8],
      [d0, d1, d2, d3, d4, d5, e6, e7, e8],
      [e0, e1, e2, e3, e4, e5, b6, b7, b8],
      [f2, f5, f8, f1, f4, f7, f0, f3, f6]]"
  by (simp add: moveDPrime_def cell_grid)

lemma moveD2_grid:
  "moveD2
     [[a0, a1, a2, a3, a4, a5, a6, a7, a8],
      [b0, b1, b2, b3, b4, b5, b6, b7, b8],
      [c0, c1, c2, c3, c4, c5, c6, c7, c8],
      [d0, d1, d2, d3, d4, d5, d6, d7, d8],
      [e0, e1, e2, e3, e4, e5, e6, e7, e8],
      [f0, f1, f2, f3, f4, f5, f6, f7, f8]] =
   Some
     [[a0, a1, a2, a3, a4, a5, a6, a7, a8],
      [b0, b1, b2, b3, b4, b5, d6, d7, d8],
      [c0, c1, c2, c3, c4, c5, e6, e7, e8],
      [d0, d1, d2, d3, d4, d5, b6, b7, b8],
      [e0, e1, e2, e3, e4, e5, c6, c7, c8],
      [f8, f7, f6, f5, f4, f3, f2, f1, f0]]"
  by (simp add: moveD2_def cell_grid)

lemma moveR_grid:
  "moveR
     [[a0, a1, a2, a3, a4, a5, a6, a7, a8],
      [b0, b1, b2, b3, b4, b5, b6, b7, b8],
      [c0, c1, c2, c3, c4, c5, c6, c7, c8],
      [d0, d1, d2, d3, d4, d5, d6, d7, d8],
      [e0, e1, e2, e3, e4, e5, e6, e7, e8],
      [f0, f1, f2, f3, f4, f5, f6, f7, f8]] =
   Some
     [[a0, a1, c2, a3, a4, c5, a6, a7, c8],
      [b0, b1, b2, b3, b4, b5, b6, b7, b8],
      [c0, c1, f2, c3, c4, f5, c6, c7, f8],
      [d6, d3, d0, d7, d4, d1, d8, d5, d2],
      [a8, e1, e2, a5, e4, e5, a2, e7, e8],
      [f0, f1, e6, f3, f4, e3, f6, f7, e0]]"
  by (simp add: moveR_def cell_grid)

lemma moveRPrime_grid:
  "moveRPrime
     [[a0, a1, a2, a3, a4, a5, a6, a7, a8],
      [b0, b1, b2, b3, b4, b5, b6, b7, b8],
      [c0, c1, c2, c3, c4, c5, c6, c7, c8],
      [d0, d1, d2, d3, d4, d5, d6, d7, d8],
      [e0, e1, e2, e3, e4, e5, e6, e7, e8],
      [f0, f1, f2, f3, f4, f5, f6, f7, f8]] =
   Some
     [[a0, a1, e6, a3, a4, e3, a6, a7, e0],
      [b0, b1, b2, b3, b4, b5, b6, b7, b8],
      [c0, c1, a2, c3, c4, a5, c6, c7, a8],
      [d2, d5, d8, d1, d4, d7, d0, d3, d6],
      [f8, e1, e2, f5, e4, e5, f2, e7, e8],
      [f0, f1, c2, f3, f4, c5, f6, f7, c8]]"
  by (simp add: moveRPrime_def cell_grid)

lemma moveR2_grid:
  "moveR2
     [[a0, a1, a2, a3, a4, a5, a6, a7, a8],
      [b0, b1, b2, b3, b4, b5, b6, b7, b8],
      [c0, c1, c2, c3, c4, c5, c6, c7, c8],
      [d0, d1, d2, d3, d4, d5, d6, d7, d8],
      [e0, e1, e2, e3, e4, e5, e6, e7, e8],
      [f0, f1, f2, f3, f4, f5, f6, f7, f8]] =
   Some
     [[a0, a1, f2, a3, a4, f5, a6, a7, f8],
      [b0, b1, b2, b3, b4, b5, b6, b7, b8],
      [c0, c1, e6, c3, c4, e3, c6, c7, e0],
      [d8, d7, d6, d5, d4, d3, d2, d1, d0],
      [c8, e1, e2, c5, e4, e5, c2, e7, e8],
      [f0, f1, a2, f3, f4, a5, f6, f7, a8]]"
  by (simp add: moveR2_def cell_grid)

lemma moveL_grid:
  "moveL
     [[a0, a1, a2, a3, a4, a5, a6, a7, a8],
      [b0, b1, b2, b3, b4, b5, b6, b7, b8],
      [c0, c1, c2, c3, c4, c5, c6, c7, c8],
      [d0, d1, d2, d3, d4, d5, d6, d7, d8],
      [e0, e1, e2, e3, e4, e5, e6, e7, e8],
      [f0, f1, f2, f3, f4, f5, f6, f7, f8]] =
   Some
     [[e8, a1, a2, e5, a4, a5, e2, a7, a8],
      [b6, b3, b0, b7, b4, b1, b8, b5, b2],
      [a0, c1, c2, a3, c4, c5, a6, c7, c8],
      [d0, d1, d2, d3, d4, d5, d6, d7, d8],
      [e0, e1, f6, e3, e4, f3, e6, e7, f0],
      [c0, f1, f2, c3, f4, f5, c6, f7, f8]]"
  by (simp add: moveL_def cell_grid)

lemma moveLPrime_grid:
  "moveLPrime
     [[a0, a1, a2, a3, a4, a5, a6, a7, a8],
      [b0, b1, b2, b3, b4, b5, b6, b7, b8],
      [c0, c1, c2, c3, c4, c5, c6, c7, c8],
      [d0, d1, d2, d3, d4, d5, d6, d7, d8],
      [e0, e1, e2, e3, e4, e5, e6, e7, e8],
      [f0, f1, f2, f3, f4, f5, f6, f7, f8]] =
   Some
     [[c0, a1, a2, c3, a4, a5, c6, a7, a8],
      [b2, b5, b8, b1, b4, b7, b0, b3, b6],
      [f0, c1, c2, f3, c4, c5, f6, c7, c8],
      [d0, d1, d2, d3, d4, d5, d6, d7, d8],
      [e0, e1, a6, e3, e4, a3, e6, e7, a0],
      [e8, f1, f2, e5, f4, f5, e2, f7, f8]]"
  by (simp add: moveLPrime_def cell_grid)

lemma moveL2_grid:
  "moveL2
     [[a0, a1, a2, a3, a4, a5, a6, a7, a8],
      [b0, b1, b2, b3, b4, b5, b6, b7, b8],
      [c0, c1, c2, c3, c4, c5, c6, c7, c8],
      [d0, d1, d2, d3, d4, d5, d6, d7, d8],
      [e0, e1, e2, e3, e4, e5, e6, e7, e8],
      [f0, f1, f2, f3, f4, f5, f6, f7, f8]] =
   Some
     [[f0, a1, a2, f3, a4, a5, f6, a7, a8],
      [b8, b7, b6, b5, b4, b3, b2, b1, b0],
      [e8, c1, c2, e5, c4, c5, e2, c7, c8],
      [d0, d1, d2, d3, d4, d5, d6, d7, d8],
      [e0, e1, c6, e3, e4, c3, e6, e7, c0],
      [a0, f1, f2, a3, f4, f5, a6, f7, f8]]"
  by (simp add: moveL2_def cell_grid)

lemmas grid_simps = moveU_grid moveUPrime_grid moveU2_grid moveD_grid moveDPrime_grid moveD2_grid
  moveR_grid moveRPrime_grid moveR2_grid moveL_grid moveLPrime_grid moveL2_grid

lemma length9_grid:
  "length (xs :: 'a list) = 9 \<Longrightarrow>
     \<exists>x0 x1 x2 x3 x4 x5 x6 x7 x8. xs = [x0, x1, x2, x3, x4, x5, x6, x7, x8]"
  by (simp add: numeral_eq_Suc length_Suc_conv) blast

lemma length6_grid:
  "length (xs :: 'a list) = 6 \<Longrightarrow> \<exists>x0 x1 x2 x3 x4 x5. xs = [x0, x1, x2, x3, x4, x5]"
  by (simp add: numeral_eq_Suc length_Suc_conv) blast

lemma wellFormed_grid:
  assumes "wellFormed s"
  obtains a0 a1 a2 a3 a4 a5 a6 a7 a8 b0 b1 b2 b3 b4 b5 b6 b7 b8 c0 c1 c2 c3 c4 c5 c6 c7 c8
          d0 d1 d2 d3 d4 d5 d6 d7 d8 e0 e1 e2 e3 e4 e5 e6 e7 e8 f0 f1 f2 f3 f4 f5 f6 f7 f8
  where "s = \<lparr> faces =
     [[a0, a1, a2, a3, a4, a5, a6, a7, a8],
      [b0, b1, b2, b3, b4, b5, b6, b7, b8],
      [c0, c1, c2, c3, c4, c5, c6, c7, c8],
      [d0, d1, d2, d3, d4, d5, d6, d7, d8],
      [e0, e1, e2, e3, e4, e5, e6, e7, e8],
      [f0, f1, f2, f3, f4, f5, f6, f7, f8]] \<rparr>"
proof -
  from assms obtain A B C D E F where fs: "faces s = [A, B, C, D, E, F]"
    unfolding wellFormed_def using length6_grid by blast
  with assms have l: "length A = 9" "length B = 9" "length C = 9" "length D = 9"
    "length E = 9" "length F = 9"
    by (simp_all add: wellFormed_def)
  from l(1) obtain a0 a1 a2 a3 a4 a5 a6 a7 a8 where A: "A = [a0, a1, a2, a3, a4, a5, a6, a7, a8]"
    using length9_grid by blast
  from l(2) obtain b0 b1 b2 b3 b4 b5 b6 b7 b8 where B: "B = [b0, b1, b2, b3, b4, b5, b6, b7, b8]"
    using length9_grid by blast
  from l(3) obtain c0 c1 c2 c3 c4 c5 c6 c7 c8 where C: "C = [c0, c1, c2, c3, c4, c5, c6, c7, c8]"
    using length9_grid by blast
  from l(4) obtain d0 d1 d2 d3 d4 d5 d6 d7 d8 where D: "D = [d0, d1, d2, d3, d4, d5, d6, d7, d8]"
    using length9_grid by blast
  from l(5) obtain e0 e1 e2 e3 e4 e5 e6 e7 e8 where E: "E = [e0, e1, e2, e3, e4, e5, e6, e7, e8]"
    using length9_grid by blast
  from l(6) obtain f0 f1 f2 f3 f4 f5 f6 f7 f8 where F: "F = [f0, f1, f2, f3, f4, f5, f6, f7, f8]"
    using length9_grid by blast
  have "s = \<lparr> faces = [A, B, C, D, E, F] \<rparr>"
    using fs by (cases s) simp
  then show ?thesis
    unfolding A B C D E F by (rule that)
qed

lemma validMoves_disj:
  "m \<in> set validMoves \<Longrightarrow>
     m = ''U'' \<or> m = ''U'' @ [CHR 0x27] \<or> m = ''U2''
   \<or> m = ''D'' \<or> m = ''D'' @ [CHR 0x27] \<or> m = ''D2''
   \<or> m = ''R'' \<or> m = ''R'' @ [CHR 0x27] \<or> m = ''R2''
   \<or> m = ''L'' \<or> m = ''L'' @ [CHR 0x27] \<or> m = ''L2''"
  by (simp add: validMoves_def)

lemma applyMove_other:
  "m \<notin> set validMoves \<Longrightarrow> applyMove s m = Some s"
  by (simp add: applyMove_def moveBody_def validMoves_def)

text \<open>A move of the vocabulary keeps the shape and rearranges the facelets.\<close>

lemma applyMove_valid:
  assumes "wellFormed s" and "m \<in> set validMoves"
  shows "\<exists>s'. applyMove s m = Some s' \<and> wellFormed s' \<and> mset (facelets s') = mset (facelets s)"
proof -
  from assms(1) obtain a0 a1 a2 a3 a4 a5 a6 a7 a8 b0 b1 b2 b3 b4 b5 b6 b7 b8 c0 c1 c2 c3 c4 c5 c6 c7 c8
          d0 d1 d2 d3 d4 d5 d6 d7 d8 e0 e1 e2 e3 e4 e5 e6 e7 e8 f0 f1 f2 f3 f4 f5 f6 f7 f8
  where s: "s = \<lparr> faces =
     [[a0, a1, a2, a3, a4, a5, a6, a7, a8],
      [b0, b1, b2, b3, b4, b5, b6, b7, b8],
      [c0, c1, c2, c3, c4, c5, c6, c7, c8],
      [d0, d1, d2, d3, d4, d5, d6, d7, d8],
      [e0, e1, e2, e3, e4, e5, e6, e7, e8],
      [f0, f1, f2, f3, f4, f5, f6, f7, f8]] \<rparr>"
    by (rule wellFormed_grid)
  from validMoves_disj[OF assms(2)] show ?thesis
    by (elim disjE)
       (simp_all add: s applyMove_def moveBody_def grid_simps wellFormed_def facelets_def)
qed

lemma applyMove_total:
  assumes "wellFormed s"
  shows "\<exists>s'. applyMove s m = Some s' \<and> wellFormed s' \<and> mset (facelets s') = mset (facelets s)"
  using applyMove_valid[OF assms] applyMove_other[of m s] assms by (cases "m \<in> set validMoves") auto


lemma applyMoves_valid:
  "wellFormed s \<Longrightarrow> set ms \<subseteq> set validMoves \<Longrightarrow>
     \<exists>s'. applyMoves s ms = Some s' \<and> wellFormed s' \<and> mset (facelets s') = mset (facelets s)"
proof (induction ms arbitrary: s)
  case Nil
  then show ?case by simp
next
  case (Cons m ms)
  from Cons.prems obtain s1 where s1: "applyMove s m = Some s1" "wellFormed s1"
    "mset (facelets s1) = mset (facelets s)"
    using applyMove_valid[of s m] by auto
  from Cons.IH[OF s1(2)] Cons.prems(2) obtain s2 where
    "applyMoves s1 ms = Some s2" "wellFormed s2" "mset (facelets s2) = mset (facelets s1)"
    by auto
  with s1 show ?case by simp
qed

lemma wellFormed_createSolvedCube: "wellFormed createSolvedCube"
  by (simp add: wellFormed_def createSolvedCube_def)

lemma facelets_createSolvedCube:
  "mset (facelets createSolvedCube) =
     replicate_mset 9 (Num 0) + replicate_mset 9 (Num 1) + replicate_mset 9 (Num 2)
   + replicate_mset 9 (Num 3) + replicate_mset 9 (Num 4) + replicate_mset 9 (Num 5)"
  by (simp add: facelets_def createSolvedCube_def numeral_eq_Suc)

text \<open>
  C1. Every move of the vocabulary followed by its inverse gives back the state it
  started from, facelet for facelet, on every state of six faces of nine facelets.
\<close>

theorem move_then_inverse:
  assumes "wellFormed s" and "m \<in> set validMoves"
  shows "applyMove s m \<bind> (\<lambda>s'. applyMove s' (inverseMove m)) = Some s"
proof -
  from assms(1) obtain a0 a1 a2 a3 a4 a5 a6 a7 a8 b0 b1 b2 b3 b4 b5 b6 b7 b8 c0 c1 c2 c3 c4 c5 c6 c7 c8
          d0 d1 d2 d3 d4 d5 d6 d7 d8 e0 e1 e2 e3 e4 e5 e6 e7 e8 f0 f1 f2 f3 f4 f5 f6 f7 f8
  where s: "s = \<lparr> faces =
     [[a0, a1, a2, a3, a4, a5, a6, a7, a8],
      [b0, b1, b2, b3, b4, b5, b6, b7, b8],
      [c0, c1, c2, c3, c4, c5, c6, c7, c8],
      [d0, d1, d2, d3, d4, d5, d6, d7, d8],
      [e0, e1, e2, e3, e4, e5, e6, e7, e8],
      [f0, f1, f2, f3, f4, f5, f6, f7, f8]] \<rparr>"
    by (rule wellFormed_grid)
  from validMoves_disj[OF assms(2)] show ?thesis
    by (elim disjE)
       (simp_all add: s applyMove_def moveBody_def inverseMove_def grid_simps)
qed

theorem move_then_inverse_witness:
  "wellFormed createSolvedCube \<and> ''R'' \<in> set validMoves
   \<and> applyMove createSolvedCube ''R'' \<noteq> Some createSolvedCube
   \<and> applyMove createSolvedCube ''R'' \<bind> (\<lambda>s'. applyMove s' (inverseMove ''R''))
       = Some createSolvedCube"
proof -
  have wf: "wellFormed createSolvedCube" by (rule wellFormed_createSolvedCube)
  have v: "''R'' \<in> set validMoves" by (simp add: validMoves_def)
  have "applyMove createSolvedCube ''R'' \<noteq> Some createSolvedCube"
    by (simp add: createSolvedCube_def applyMove_def moveBody_def grid_simps eval_nat_numeral)
  with wf v move_then_inverse[OF wf v] show ?thesis by simp
qed

text \<open>
  C3. For each of the faces U, D, R and L: the half turn is the quarter turn applied
  twice; four quarter turns, and two half turns, give back the starting state; three
  quarter turns are the primed turn.
\<close>

theorem turn_powers:
  assumes "wellFormed s" and "F \<in> {''U'', ''D'', ''R'', ''L''}"
  shows "applyMove s (F @ ''2'') = applyMoves s [F, F]
       \<and> applyMoves s [F, F, F, F] = Some s
       \<and> applyMoves s [F @ ''2'', F @ ''2''] = Some s
       \<and> applyMoves s [F, F, F] = applyMove s (F @ [CHR 0x27])"
proof -
  from assms(1) obtain a0 a1 a2 a3 a4 a5 a6 a7 a8 b0 b1 b2 b3 b4 b5 b6 b7 b8 c0 c1 c2 c3 c4 c5 c6 c7 c8
          d0 d1 d2 d3 d4 d5 d6 d7 d8 e0 e1 e2 e3 e4 e5 e6 e7 e8 f0 f1 f2 f3 f4 f5 f6 f7 f8
  where s: "s = \<lparr> faces =
     [[a0, a1, a2, a3, a4, a5, a6, a7, a8],
      [b0, b1, b2, b3, b4, b5, b6, b7, b8],
      [c0, c1, c2, c3, c4, c5, c6, c7, c8],
      [d0, d1, d2, d3, d4, d5, d6, d7, d8],
      [e0, e1, e2, e3, e4, e5, e6, e7, e8],
      [f0, f1, f2, f3, f4, f5, f6, f7, f8]] \<rparr>"
    by (rule wellFormed_grid)
  from assms(2) have "F = ''U'' \<or> F = ''D'' \<or> F = ''R'' \<or> F = ''L''" by simp
  then show ?thesis
    by (elim disjE)
       (simp_all add: s applyMove_def moveBody_def grid_simps)
qed

theorem turn_powers_witness:
  "wellFormed createSolvedCube \<and> ''L'' \<in> {''U'', ''D'', ''R'', ''L''}
   \<and> (applyMove createSolvedCube (''L'' @ ''2'') = applyMoves createSolvedCube [''L'', ''L'']
       \<and> applyMoves createSolvedCube [''L'', ''L'', ''L'', ''L''] = Some createSolvedCube
       \<and> applyMoves createSolvedCube [''L'' @ ''2'', ''L'' @ ''2''] = Some createSolvedCube
       \<and> applyMoves createSolvedCube [''L'', ''L'', ''L'']
           = applyMove createSolvedCube (''L'' @ [CHR 0x27]))"
proof -
  have wf: "wellFormed createSolvedCube" by (rule wellFormed_createSolvedCube)
  have v: "''L'' \<in> {''U'', ''D'', ''R'', ''L''}" by simp
  from wf v turn_powers[OF wf v] show ?thesis by blast
qed

text \<open>
  C5. A move of the vocabulary applied to a state of six faces of nine facelets, whatever
  its values, returns a state that holds every value as many times as the input does; so
  every state reached from the solved state by moves of the vocabulary has 54 facelets,
  nine of each of the values 0 to 5.
\<close>

theorem move_preserves_counts:
  "(wellFormed s \<and> m \<in> set validMoves \<longrightarrow>
      (\<exists>s'. applyMove s m = Some s' \<and> (\<forall>v. count_list (facelets s') v = count_list (facelets s) v)))
   \<and> (set ms \<subseteq> set validMoves \<longrightarrow>
      (\<exists>s'. applyMoves createSolvedCube ms = Some s' \<and> length (facelets s') = 54
         \<and> (\<forall>i \<in> {0, 1, 2, 3, 4, 5}. count_list (facelets s') (Num i) = 9)))"
proof (intro conjI impI)
  assume "wellFormed s \<and> m \<in> set validMoves"
  then obtain s' where "applyMove s m = Some s'" "mset (facelets s') = mset (facelets s)"
    using applyMove_valid[of s m] by auto
  then have "applyMove s m = Some s' \<and> (\<forall>v. count (mset (facelets s')) v = count (mset (facelets s)) v)"
    by simp
  then show "\<exists>s'. applyMove s m = Some s' \<and> (\<forall>v. count_list (facelets s') v = count_list (facelets s) v)"
    by (auto simp: count_mset)
next
  assume "set ms \<subseteq> set validMoves"
  then obtain s' where s': "applyMoves createSolvedCube ms = Some s'"
    "mset (facelets s') = mset (facelets createSolvedCube)"
    using applyMoves_valid[OF wellFormed_createSolvedCube] by blast
  have "size (mset (facelets s')) = 54"
    unfolding s'(2) facelets_createSolvedCube by simp
  then have len: "length (facelets s') = 54" by simp
  have "\<forall>i \<in> {0, 1, 2, 3, 4, 5}. count (mset (facelets s')) (Num i) = 9"
    unfolding s'(2) facelets_createSolvedCube by simp
  then have "\<forall>i \<in> {0, 1, 2, 3, 4, 5}. count_list (facelets s') (Num i) = 9"
    by (simp add: count_mset)
  with s'(1) len show "\<exists>s'. applyMoves createSolvedCube ms = Some s' \<and> length (facelets s') = 54
         \<and> (\<forall>i \<in> {0, 1, 2, 3, 4, 5}. count_list (facelets s') (Num i) = 9)"
    by blast
qed

theorem move_preserves_counts_witness:
  "wellFormed createSolvedCube \<and> ''U'' \<in> set validMoves
   \<and> set [''U'', ''R2''] \<subseteq> set validMoves
   \<and> (\<exists>s'. applyMove createSolvedCube ''U'' = Some s'
         \<and> (\<forall>v. count_list (facelets s') v = count_list (facelets createSolvedCube) v))
   \<and> (\<exists>s'. applyMoves createSolvedCube [''U'', ''R2''] = Some s' \<and> length (facelets s') = 54
         \<and> count_list (facelets s') (Num 0) = 9 \<and> count_list (facelets s') (Num 5) = 9)"
proof -
  have a: "wellFormed createSolvedCube" by (rule wellFormed_createSolvedCube)
  have b: "''U'' \<in> set validMoves" and c: "set [''U'', ''R2''] \<subseteq> set validMoves"
    by (simp_all add: validMoves_def)
  from move_preserves_counts[of createSolvedCube "''U''" "[''U'', ''R2'']"] a b c
  have "\<exists>s'. applyMove createSolvedCube ''U'' = Some s'
         \<and> (\<forall>v. count_list (facelets s') v = count_list (facelets createSolvedCube) v)"
    and "\<exists>s'. applyMoves createSolvedCube [''U'', ''R2''] = Some s' \<and> length (facelets s') = 54
         \<and> (\<forall>i \<in> {0, 1, 2, 3, 4, 5}. count_list (facelets s') (Num i) = 9)"
    by blast+
  with a b c show ?thesis by blast
qed

section \<open>Goal test and heuristics never throw on well-formed states\<close>

lemma cellIndices_bound: "(i, j) \<in> set cellIndices \<Longrightarrow> i < 6 \<and> j < 9"
  by (auto simp: cellIndices_def)

lemma cellDiffers_total:
  "i < length (faces current) \<Longrightarrow> i < length (faces goal) \<Longrightarrow>
     cellDiffers current goal i j
       = Some (arrGet (faces current ! i) j \<noteq> arrGet (faces goal ! i) j)"
  by (simp add: cellDiffers_def rd_def faceAt_def)

lemma isGoalFrom_total:
  "\<forall>(i, j) \<in> set ps. i < length (faces current) \<and> i < length (faces goal) \<Longrightarrow>
     \<exists>b. isGoalFrom current goal ps = Some b"
  by (induction ps) (auto simp: cellDiffers_total)

lemma countDisplaced_total:
  "\<forall>(i, j) \<in> set ps. i < length (faces current) \<and> i < length (faces goal) \<Longrightarrow>
     \<exists>k. countDisplaced current goal ps n = Some k"
  by (induction ps arbitrary: n) (auto simp: cellDiffers_total)

lemma wellFormed_indices:
  assumes "wellFormed current" and "wellFormed goal"
  shows "\<forall>(i, j) \<in> set cellIndices. i < length (faces current) \<and> i < length (faces goal)"
  using assms cellIndices_bound by (auto simp: wellFormed_def)

lemma isGoal_total:
  "wellFormed current \<Longrightarrow> wellFormed goal \<Longrightarrow> \<exists>b. isGoal current goal = Some b"
  unfolding isGoal_def by (rule isGoalFrom_total) (rule wellFormed_indices)

lemma getDisplacedPiecesHeuristic_total:
  assumes "wellFormed current" and "wellFormed goal"
  shows "\<exists>h. getDisplacedPiecesHeuristic current goal = Some h"
proof -
  from countDisplaced_total[OF wellFormed_indices[OF assms], of 0]
  obtain k where "countDisplaced current goal cellIndices 0 = Some k" by blast
  then show ?thesis by (simp add: getDisplacedPiecesHeuristic_def)
qed

lemma getAIEnhancedHeuristic_no_throw:
  assumes "wellFormed current" and "wellFormed goal"
  shows "fst (getAIEnhancedHeuristic ai hs current goal) \<noteq> Threw"
  using getDisplacedPiecesHeuristic_total[OF assms]
  by (auto simp: getAIEnhancedHeuristic_def Let_def split: option.splits reply.splits)

lemma getSmartHeuristic_no_throw:
  assumes "wellFormed current" and "wellFormed goal"
  shows "fst (getSmartHeuristic ai hs current goal) \<noteq> Threw"
  using getDisplacedPiecesHeuristic_total[OF assms]
    getAIEnhancedHeuristic_no_throw[OF assms]
  by (auto simp: getSmartHeuristic_def Let_def)

lemma getAIEnhancedHeuristic_total:
  assumes "wellFormed current" and "wellFormed goal" and "settles ai"
  shows "\<exists>h hs'. getAIEnhancedHeuristic ai hs current goal = (Returned h, hs')"
  using getDisplacedPiecesHeuristic_total[OF assms(1,2)] assms(3)
  by (auto simp: getAIEnhancedHeuristic_def settles_def Let_def
           split: option.splits reply.splits)

lemma getSmartHeuristic_total:
  assumes "wellFormed current" and "wellFormed goal" and "settles ai"
  shows "\<exists>h hs'. getSmartHeuristic ai hs current goal = (Returned h, hs')"
  using getDisplacedPiecesHeuristic_total[OF assms(1,2)] getAIEnhancedHeuristic_total[OF assms]
  by (auto simp: getSmartHeuristic_def Let_def)

lemma formatFaces_total:
  "\<forall>i \<in> set is. i < length fs \<Longrightarrow> \<exists>r. formatFaces fs is formatted = Some r"
  by (induction "is" arbitrary: formatted) (auto simp: faceAt_def)

lemma formatCubeStateForAI_total:
  "wellFormed c \<Longrightarrow> \<exists>r. formatCubeStateForAI c = Some r"
  unfolding formatCubeStateForAI_def
  by (rule formatFaces_total) (simp add: wellFormed_def)

text \<open>
  C8. The oracle path of the heuristic. With no oracle configured, or on a cache miss
  when rendering the state throws, the request fails, or the number read from the
  response is not strictly between 0 and 50, \<^verbatim>\<open>getAIEnhancedHeuristic\<close> returns what
  \<^verbatim>\<open>getDisplacedPiecesHeuristic\<close> returns and leaves the cache as it was. A number
  strictly between 0 and 50 is returned and stored in the cache under the key of the
  state. A cached key gives the cached value and changes nothing, so no request is made.
  \<^verbatim>\<open>getSmartHeuristic\<close> counts the call and takes the oracle path exactly when the new
  count is a multiple of 15 and an oracle is configured; otherwise it returns the local
  estimate and touches neither cache nor oracle. On states of six faces of nine facelets
  neither function throws, whatever the oracle does, and both return a value when the
  oracle's requests settle. A request that never settles leaves the call waiting, with
  the cache as it was.
\<close>

theorem oracle_path_degrades:
  "(getAIEnhancedHeuristic None hs current goal
      = (ofSync (getDisplacedPiecesHeuristic current goal), hs))
   \<and> (aiHeuristicCache hs (hashCubeState current) = None \<and>
      (case formatCubeStateForAI current of
         None \<Rightarrow> True
       | Some formatted \<Rightarrow>
           (case ask (length (oracleRequests hs)) (prompt formatted) of
              Failure \<Rightarrow> True
            | Response response \<Rightarrow> \<not> (0 < parseEstimate response \<and> parseEstimate response < 50)
            | NoReply \<Rightarrow> False))
      \<longrightarrow> fst (getAIEnhancedHeuristic (Some ask) hs current goal)
            = ofSync (getDisplacedPiecesHeuristic current goal)
        \<and> aiHeuristicCache (snd (getAIEnhancedHeuristic (Some ask) hs current goal))
            = aiHeuristicCache hs)
   \<and> (aiHeuristicCache hs (hashCubeState current) = None \<and>
      formatCubeStateForAI current = Some formatted \<and>
      ask (length (oracleRequests hs)) (prompt formatted) = Response response \<and>
      0 < parseEstimate response \<and> parseEstimate response < 50
      \<longrightarrow> fst (getAIEnhancedHeuristic (Some ask) hs current goal) = Returned (parseEstimate response)
        \<and> aiHeuristicCache (snd (getAIEnhancedHeuristic (Some ask) hs current goal))
            = (aiHeuristicCache hs)(hashCubeState current \<mapsto> parseEstimate response))
   \<and> (aiHeuristicCache hs (hashCubeState current) = Some cached
      \<longrightarrow> getAIEnhancedHeuristic (Some ask) hs current goal = (Returned cached, hs))
   \<and> (getSmartHeuristic ai hs current goal =
        (if (heuristicCallCount hs + 1) mod 15 = 0 \<and> ai \<noteq> None
         then getAIEnhancedHeuristic ai (hs\<lparr> heuristicCallCount := heuristicCallCount hs + 1 \<rparr>)
                current goal
         else (ofSync (getDisplacedPiecesHeuristic current goal),
               hs\<lparr> heuristicCallCount := heuristicCallCount hs + 1 \<rparr>)))
   \<and> (wellFormed current \<and> wellFormed goal
      \<longrightarrow> fst (getAIEnhancedHeuristic ai hs current goal) \<noteq> Threw
        \<and> fst (getSmartHeuristic ai hs current goal) \<noteq> Threw)
   \<and> (wellFormed current \<and> wellFormed goal \<and> settles ai
      \<longrightarrow> (\<exists>h. fst (getAIEnhancedHeuristic ai hs current goal) = Returned h)
        \<and> (\<exists>h. fst (getSmartHeuristic ai hs current goal) = Returned h))
   \<and> (aiHeuristicCache hs (hashCubeState current) = None \<and>
      formatCubeStateForAI current = Some formatted \<and>
      ask (length (oracleRequests hs)) (prompt formatted) = NoReply
      \<longrightarrow> fst (getAIEnhancedHeuristic (Some ask) hs current goal) = Unsettled
        \<and> aiHeuristicCache (snd (getAIEnhancedHeuristic (Some ask) hs current goal))
            = aiHeuristicCache hs)"
proof (intro conjI impI)
  show "getAIEnhancedHeuristic None hs current goal
      = (ofSync (getDisplacedPiecesHeuristic current goal), hs)"
    by (simp add: getAIEnhancedHeuristic_def)
next
  assume "aiHeuristicCache hs (hashCubeState current) = None \<and>
      (case formatCubeStateForAI current of
         None \<Rightarrow> True
       | Some formatted \<Rightarrow>
           (case ask (length (oracleRequests hs)) (prompt formatted) of
              Failure \<Rightarrow> True
            | Response response \<Rightarrow> \<not> (0 < parseEstimate response \<and> parseEstimate response < 50)
            | NoReply \<Rightarrow> False))"
  then show "fst (getAIEnhancedHeuristic (Some ask) hs current goal)
            = ofSync (getDisplacedPiecesHeuristic current goal)"
    and "aiHeuristicCache (snd (getAIEnhancedHeuristic (Some ask) hs current goal))
            = aiHeuristicCache hs"
    by (auto simp: getAIEnhancedHeuristic_def Let_def split: option.splits reply.splits)
next
  assume "aiHeuristicCache hs (hashCubeState current) = None \<and>
      formatCubeStateForAI current = Some formatted \<and>
      ask (length (oracleRequests hs)) (prompt formatted) = Response response \<and>
      0 < parseEstimate response \<and> parseEstimate response < 50"
  then show "fst (getAIEnhancedHeuristic (Some ask) hs current goal) = Returned (parseEstimate response)"
    and "aiHeuristicCache (snd (getAIEnhancedHeuristic (Some ask) hs current goal))
            = (aiHeuristicCache hs)(hashCubeState current \<mapsto> parseEstimate response)"
    by (simp_all add: getAIEnhancedHeuristic_def Let_def)
next
  assume "aiHeuristicCache hs (hashCubeState current) = Some cached"
  then show "getAIEnhancedHeuristic (Some ask) hs current goal = (Returned cached, hs)"
    by (simp add: getAIEnhancedHeuristic_def Let_def)
next
  show "getSmartHeuristic ai hs current goal =
        (if (heuristicCallCount hs + 1) mod 15 = 0 \<and> ai \<noteq> None
         then getAIEnhancedHeuristic ai (hs\<lparr> heuristicCallCount := heuristicCallCount hs + 1 \<rparr>)
                current goal
         else (ofSync (getDisplacedPiecesHeuristic current goal),
               hs\<lparr> heuristicCallCount := heuristicCallCount hs + 1 \<rparr>))"
    by (simp add: getSmartHeuristic_def Let_def)
next
  assume wf: "wellFormed current \<and> wellFormed goal"
  then show "fst (getAIEnhancedHeuristic ai hs current goal) \<noteq> Threw"
    using getAIEnhancedHeuristic_no_throw by blast
  from wf show "fst (getSmartHeuristic ai hs current goal) \<noteq> Threw"
    using getSmartHeuristic_no_throw by blast
next
  assume wf: "wellFormed current \<and> wellFormed goal \<and> settles ai"
  then show "\<exists>h. fst (getAIEnhancedHeuristic ai hs current goal) = Returned h"
    using getAIEnhancedHeuristic_total[of current goal ai hs] by auto
  from wf show "\<exists>h. fst (getSmartHeuristic ai hs current goal) = Returned h"
    using getSmartHeuristic_total[of current goal ai hs] by auto
next
  assume "aiHeuristicCache hs (hashCubeState current) = None \<and>
      formatCubeStateForAI current = Some formatted \<and>
      ask (length (oracleRequests hs)) (prompt formatted) = NoReply"
  then show "fst (getAIEnhancedHeuristic (Some ask) hs current goal) = Unsettled"
    and "aiHeuristicCache (snd (getAIEnhancedHeuristic (Some ask) hs current goal))
            = aiHeuristicCache hs"
    by (simp_all add: getAIEnhancedHeuristic_def Let_def)
qed

theorem oracle_path_degrades_witness:
  "aiHeuristicCache \<lparr> heuristicCallCount = 14, aiHeuristicCache = Map.empty, oracleRequests = [] \<rparr>
      (hashCubeState createSolvedCube) = None
   \<and> (\<exists>formatted. formatCubeStateForAI createSolvedCube = Some formatted)
   \<and> 0 < parseEstimate ''about 12 moves'' \<and> parseEstimate ''about 12 moves'' < 50
   \<and> parseEstimate ''no idea'' = 0
   \<and> wellFormed createSolvedCube
   \<and> settles (Some (\<lambda>n p. Failure))
   \<and> fst (getAIEnhancedHeuristic (Some (\<lambda>n p. Response ''about 12 moves''))
        \<lparr> heuristicCallCount = 14, aiHeuristicCache = Map.empty, oracleRequests = [] \<rparr>
        createSolvedCube createSolvedCube) = Returned 12
   \<and> fst (getAIEnhancedHeuristic (Some (\<lambda>n p. Response ''no idea''))
        \<lparr> heuristicCallCount = 14, aiHeuristicCache = Map.empty, oracleRequests = [] \<rparr>
        createSolvedCube createSolvedCube)
       = ofSync (getDisplacedPiecesHeuristic createSolvedCube createSolvedCube)
   \<and> (\<exists>h. fst (getSmartHeuristic (Some (\<lambda>n p. Failure))
        \<lparr> heuristicCallCount = 14, aiHeuristicCache = Map.empty, oracleRequests = [] \<rparr>
        createSolvedCube createSolvedCube) = Returned h)
   \<and> fst (getAIEnhancedHeuristic (Some silentOracle)
        \<lparr> heuristicCallCount = 14, aiHeuristicCache = Map.empty, oracleRequests = [] \<rparr>
        createSolvedCube createSolvedCube) = Unsettled"
proof -
  let ?hs = "\<lparr> heuristicCallCount = 14, aiHeuristicCache = Map.empty, oracleRequests = [] \<rparr>"
  have miss: "aiHeuristicCache ?hs (hashCubeState createSolvedCube) = None" by simp
  have wf: "wellFormed createSolvedCube" by (rule wellFormed_createSolvedCube)
  have st: "settles (Some (\<lambda>n p. Failure))" by (simp add: settles_def)
  obtain formatted where fmt: "formatCubeStateForAI createSolvedCube = Some formatted"
    using formatCubeStateForAI_total[OF wf] by blast
  have p12: "parseEstimate ''about 12 moves'' = 12"
    by (simp add: parseEstimate_def firstDigits_def isDigit_def parseDigits_def digitValue_def)
  have p0: "parseEstimate ''no idea'' = 0"
    by (simp add: parseEstimate_def firstDigits_def isDigit_def parseDigits_def digitValue_def)
  have a: "fst (getAIEnhancedHeuristic (Some (\<lambda>n p. Response ''about 12 moves'')) ?hs
              createSolvedCube createSolvedCube) = Returned 12"
    using oracle_path_degrades[of ?hs createSolvedCube createSolvedCube
        "\<lambda>n p. Response ''about 12 moves''" formatted "''about 12 moves''"] miss fmt p12
    by simp
  have b: "fst (getAIEnhancedHeuristic (Some (\<lambda>n p. Response ''no idea'')) ?hs
              createSolvedCube createSolvedCube)
            = ofSync (getDisplacedPiecesHeuristic createSolvedCube createSolvedCube)"
    using oracle_path_degrades[of ?hs createSolvedCube createSolvedCube
        "\<lambda>n p. Response ''no idea''"] miss fmt p0
    by simp
  have c: "\<exists>h. fst (getSmartHeuristic (Some (\<lambda>n p. Failure)) ?hs
              createSolvedCube createSolvedCube) = Returned h"
    using oracle_path_degrades[of ?hs createSolvedCube createSolvedCube _ _ _ _
        "Some (\<lambda>n p. Failure)"] wf st
    by blast
  have d: "fst (getAIEnhancedHeuristic (Some silentOracle) ?hs
              createSolvedCube createSolvedCube) = Unsettled"
    using oracle_path_degrades[of ?hs createSolvedCube createSolvedCube silentOracle formatted]
      miss fmt
    by (simp add: silentOracle_def)
  from miss fmt p12 p0 wf st a b c d show ?thesis by simp
qed

section \<open>The canonical key\<close>

lemma joinWith_empty: "joinWith [] xs = concat xs"
  by (induction "[] :: string" xs rule: joinWith.induct) simp_all

lemma digit_chars_distinct: "distinct ''0123456789''"
  by simp

lemma faceletToString_digit:
  assumes "singleDigitFacelet v"
  shows "\<exists>k < 10. v = Num (int k) \<and> faceletToString v = [''0123456789'' ! k]"
proof (cases v)
  case (Num d)
  with assms have "0 \<le> d" "d < 10" by simp_all
  then have "nat d < 10" "d = int (nat d)" by simp_all
  moreover have "faceletToString v = [''0123456789'' ! nat d]"
    using Num \<open>0 \<le> d\<close> \<open>d < 10\<close> by (simp add: numToString_def)
  ultimately show ?thesis using Num by metis
next
  case Undefined
  with assms show ?thesis by simp
qed

text \<open>The character a single-digit facelet is printed as.\<close>

lemma faceletToString_inj:
  assumes "singleDigitFacelet v" and "singleDigitFacelet w"
    and "faceletToString v = faceletToString w"
  shows "v = w"
proof -
  from faceletToString_digit[OF assms(1)] obtain k where
    k: "k < 10" "v = Num (int k)" "faceletToString v = [''0123456789'' ! k]" by blast
  from faceletToString_digit[OF assms(2)] obtain l where
    l: "l < 10" "w = Num (int l)" "faceletToString w = [''0123456789'' ! l]" by blast
  from assms(3) k(3) l(3) have "''0123456789'' ! k = ''0123456789'' ! l" by simp
  with k(1) l(1) have "k = l"
    using digit_chars_distinct by (simp add: nth_eq_iff_index_eq)
  with k(2) l(2) show ?thesis by simp
qed

lemma faceletToString_length:
  "singleDigitFacelet v \<Longrightarrow> length (faceletToString v) = 1"
  using faceletToString_digit by fastforce

lemma face_key_length:
  "list_all singleDigitFacelet xs \<Longrightarrow> length (concat (map faceletToString xs)) = length xs"
  by (induction xs) (simp_all add: faceletToString_length)

lemma face_key_inj:
  "list_all singleDigitFacelet xs \<Longrightarrow> list_all singleDigitFacelet ys \<Longrightarrow>
   length xs = length ys \<Longrightarrow>
   concat (map faceletToString xs) = concat (map faceletToString ys) \<Longrightarrow> xs = ys"
proof (induction xs ys rule: list_induct2')
  case (4 x xs y ys)
  from "4.prems" have sx: "singleDigitFacelet x" and sy: "singleDigitFacelet y" by simp_all
  from "4.prems" have
    "faceletToString x @ concat (map faceletToString xs)
       = faceletToString y @ concat (map faceletToString ys)" by simp
  moreover have "length (faceletToString x) = length (faceletToString y)"
    using sx sy by (simp add: faceletToString_length)
  ultimately have "faceletToString x = faceletToString y"
    and "concat (map faceletToString xs) = concat (map faceletToString ys)"
    by simp_all
  with "4.IH" "4.prems" sx sy show ?case by (auto dest: faceletToString_inj)
qed simp_all

lemma hash_six:
  "hashCubeState \<lparr> faces = [A, B, C, D, E, F] \<rparr> =
     concat (map faceletToString A) @ ''|'' @ concat (map faceletToString B) @ ''|''
   @ concat (map faceletToString C) @ ''|'' @ concat (map faceletToString D) @ ''|''
   @ concat (map faceletToString E) @ ''|'' @ concat (map faceletToString F)"
  by (simp add: hashCubeState_def joinWith_empty)

text \<open>
  C9. The key is a function of the facelets, and on states of six faces of nine facelets
  whose values are single-digit integers two states have the same key exactly when they
  are equal facelet for facelet.
\<close>

theorem hash_injective:
  assumes "wellFormed s" and "singleDigit s" and "wellFormed t" and "singleDigit t"
  shows "hashCubeState s = hashCubeState t \<longleftrightarrow> s = t"
proof
  assume eq: "hashCubeState s = hashCubeState t"
  from assms(1) obtain A B C D E F where s: "s = \<lparr> faces = [A, B, C, D, E, F] \<rparr>"
    using length6_grid[of "faces s"] by (cases s) (auto simp: wellFormed_def)
  from assms(3) obtain A' B' C' D' E' F' where t: "t = \<lparr> faces = [A', B', C', D', E', F'] \<rparr>"
    using length6_grid[of "faces t"] by (cases t) (auto simp: wellFormed_def)
  from assms(1) s have ls: "length A = 9" "length B = 9" "length C = 9" "length D = 9"
      "length E = 9" "length F = 9"
    by (simp_all add: wellFormed_def)
  from assms(3) t have lt: "length A' = 9" "length B' = 9" "length C' = 9" "length D' = 9"
      "length E' = 9" "length F' = 9"
    by (simp_all add: wellFormed_def)
  from assms(2) s have ds: "list_all singleDigitFacelet A" "list_all singleDigitFacelet B"
      "list_all singleDigitFacelet C" "list_all singleDigitFacelet D"
      "list_all singleDigitFacelet E" "list_all singleDigitFacelet F"
    by (simp_all add: singleDigit_def facelets_def)
  from assms(4) t have dt: "list_all singleDigitFacelet A'" "list_all singleDigitFacelet B'"
      "list_all singleDigitFacelet C'" "list_all singleDigitFacelet D'"
      "list_all singleDigitFacelet E'" "list_all singleDigitFacelet F'"
    by (simp_all add: singleDigit_def facelets_def)
  note len = ds[THEN face_key_length] dt[THEN face_key_length]
  from eq have
    "concat (map faceletToString A) = concat (map faceletToString A')
     \<and> concat (map faceletToString B) = concat (map faceletToString B')
     \<and> concat (map faceletToString C) = concat (map faceletToString C')
     \<and> concat (map faceletToString D) = concat (map faceletToString D')
     \<and> concat (map faceletToString E) = concat (map faceletToString E')
     \<and> concat (map faceletToString F) = concat (map faceletToString F')"
    unfolding s t hash_six using len ls lt by simp
  then have "A = A'" "B = B'" "C = C'" "D = D'" "E = E'" "F = F'"
    using ds dt ls lt by (auto intro: face_key_inj)
  with s t show "s = t" by simp
qed simp

theorem hash_injective_witness:
  "wellFormed createSolvedCube \<and> singleDigit createSolvedCube
   \<and> (\<exists>t. applyMove createSolvedCube ''R'' = Some t \<and> wellFormed t \<and> singleDigit t
          \<and> t \<noteq> createSolvedCube \<and> hashCubeState createSolvedCube \<noteq> hashCubeState t)
   \<and> (hashCubeState createSolvedCube = hashCubeState createSolvedCube)"
proof -
  have wf: "wellFormed createSolvedCube" by (rule wellFormed_createSolvedCube)
  have sd: "singleDigit createSolvedCube"
    by (simp add: singleDigit_def facelets_def createSolvedCube_def eval_nat_numeral)
  obtain t where t: "applyMove createSolvedCube ''R'' = Some t" "wellFormed t"
    "mset (facelets t) = mset (facelets createSolvedCube)"
    using applyMove_total[OF wf, of "''R''"] by blast
  from t(3) have "set (facelets t) = set (facelets createSolvedCube)"
    by (rule mset_eq_setD)
  with sd have sdt: "singleDigit t" by (simp add: singleDigit_def list_all_iff)
  have ne: "t \<noteq> createSolvedCube"
    using t(1) by (auto simp: createSolvedCube_def applyMove_def moveBody_def grid_simps eval_nat_numeral)
  with hash_injective[OF wf sd t(2) sdt] have "hashCubeState createSolvedCube \<noteq> hashCubeState t"
    by auto
  with wf sd t sdt ne show ?thesis by blast
qed

section \<open>The search\<close>

lemma applyMoves_snoc:
  "applyMoves s (ms @ [m]) = applyMoves s ms \<bind> (\<lambda>s'. applyMove s' m)"
  by (induction ms arbitrary: s) (simp_all cong: Option.bind_cong)

lemma expand_preserves:
  assumes "expand ai goalCube cur vis ms (fr, hs) = Returned (fr', hs')"
    and "\<forall>n \<in> set fr. P n"
    and "\<And>m c h. m \<in> set ms \<Longrightarrow> applyMove (cube cur) m = Some c \<Longrightarrow>
           P \<lparr> cube = c, gScore = gScore cur + 1, hScore = h, fScore = gScore cur + 1 + h,
               moves = State.moves cur @ [m] \<rparr>"
  shows "\<forall>n \<in> set fr'. P n"
  using assms
proof (induction ms arbitrary: fr hs)
  case Nil
  then show ?case by simp
next
  case (Cons m ms)
  from Cons.prems(1) obtain c where c: "applyMove (cube cur) m = Some c"
    by (auto split: option.splits)
  show ?case
  proof (cases "hashCubeState c \<notin> vis")
    case True
    with Cons.prems(1) c obtain h hs1 where
      h: "getSmartHeuristic ai hs c goalCube = (Returned h, hs1)" and
      rest: "expand ai goalCube cur vis ms
          (fr @ [\<lparr> cube = c, gScore = gScore cur + 1, hScore = h,
                    fScore = gScore cur + 1 + h, moves = State.moves cur @ [m] \<rparr>], hs1)
         = Returned (fr', hs')"
      by (auto split: awaited.splits prod.splits)
    have "\<forall>n \<in> set (fr @ [\<lparr> cube = c, gScore = gScore cur + 1, hScore = h,
                    fScore = gScore cur + 1 + h, moves = State.moves cur @ [m] \<rparr>]). P n"
      using Cons.prems(2) Cons.prems(3)[of m c h] c by simp
    from Cons.IH[OF rest this] Cons.prems(3) show ?thesis by simp
  next
    case False
    with Cons.prems(1) c have "expand ai goalCube cur vis ms (fr, hs) = Returned (fr', hs')"
      by simp
    from Cons.IH[OF this Cons.prems(2)] Cons.prems(3) show ?thesis by simp
  qed
qed

lemma current_in_openSet:
  "openSet st \<noteq> [] \<Longrightarrow> hd (sort_key fScore (openSet st)) \<in> set (openSet st)"
  by (metis hd_in_set set_sort set_empty)

lemma rest_in_openSet:
  "n \<in> set (tl (sort_key fScore (openSet st))) \<Longrightarrow> n \<in> set (openSet st)"
  by (metis list.sel(2) list.set_sel(2) set_sort)

lemma step_pathsOk:
  assumes "processNextState env goalCube st = Scheduled st'" and "pathsOk scrambled st"
  shows "pathsOk scrambled st'"
proof -
  let ?cur = "hd (sort_key fScore (openSet st))"
  let ?rest = "tl (sort_key fScore (openSet st))"
  from assms(1) have ne: "openSet st \<noteq> []"
    by (auto simp: processNextState_def)
  have cur: "applyMoves scrambled (State.moves ?cur) = Some (cube ?cur)"
    using assms(2) current_in_openSet[OF ne] by (simp add: pathsOk_def)
  have rest: "\<forall>n \<in> set ?rest. applyMoves scrambled (State.moves n) = Some (cube n)"
    using assms(2) rest_in_openSet by (auto simp: pathsOk_def)
  show ?thesis
  proof (cases "hashCubeState (cube ?cur) \<in> visited st")
    case True
    with assms(1) ne have "st' = st\<lparr> openSet := ?rest \<rparr>"
      by (simp add: processNextState_def Let_def)
    with rest show ?thesis by (simp add: pathsOk_def)
  next
    case False
    with assms(1) ne obtain fr' hs' where
      ex: "expand (genAI env) goalCube ?cur (insert (hashCubeState (cube ?cur)) (visited st))
             validMoves (?rest, heur st) = Returned (fr', hs')"
      and st': "openSet st' = fr'"
      by (auto simp: processNextState_def Let_def
               split: option.splits bool.splits awaited.splits)
    have "\<forall>n \<in> set fr'. applyMoves scrambled (State.moves n) = Some (cube n)"
      by (rule expand_preserves[OF ex rest]) (simp add: applyMoves_snoc cur)
    with st' show ?thesis by (simp add: pathsOk_def)
  qed
qed

lemma resolved_path:
  assumes "processNextState env goalCube st = Resolved r" and "pathsOk scrambled st"
    and "moves r \<noteq> []"
  shows "\<exists>s'. applyMoves scrambled (moves r) = Some s' \<and> isGoal s' goalCube = Some True"
proof -
  let ?cur = "hd (sort_key fScore (openSet st))"
  from assms(1,3) have ne: "openSet st \<noteq> []"
    by (auto simp: processNextState_def)
  have cur: "applyMoves scrambled (State.moves ?cur) = Some (cube ?cur)"
    using assms(2) current_in_openSet[OF ne] by (simp add: pathsOk_def)
  from assms(1) ne have "moves r = State.moves ?cur \<and> isGoal (cube ?cur) goalCube = Some True"
    by (auto simp: processNextState_def Let_def
             split: if_splits option.splits bool.splits awaited.splits)
  with cur show ?thesis by simp
qed

lemma searchLoop_path_aux:
  assumes run: "searchLoop env goalCube st = Some r"
  shows "pathsOk scrambled st \<longrightarrow> moves r \<noteq> [] \<longrightarrow>
     (\<exists>s'. applyMoves scrambled (moves r) = Some s' \<and> isGoal s' goalCube = Some True)"
proof (rule searchLoop.raw_induct[where P = "\<lambda>env goalCube st r.
     pathsOk scrambled st \<longrightarrow> moves r \<noteq> [] \<longrightarrow>
     (\<exists>s'. applyMoves scrambled (moves r) = Some s' \<and> isGoal s' goalCube = Some True)",
     OF _ run])
  fix loop :: "Env \<Rightarrow> CubeState \<Rightarrow> Search \<Rightarrow> SolveResult option"
  fix env :: Env and goalCube st and r :: SolveResult
  assume IH: "\<And>env goalCube st (r :: SolveResult). loop env goalCube st = Some r \<Longrightarrow>
     pathsOk scrambled st \<longrightarrow> moves r \<noteq> [] \<longrightarrow>
     (\<exists>s'. applyMoves scrambled (moves r) = Some s' \<and> isGoal s' goalCube = Some True)"
  assume eq: "(case processNextState env goalCube st of
                 Resolved r \<Rightarrow> Some r
               | Scheduled st' \<Rightarrow> loop env goalCube st'
               | Thrown \<Rightarrow> None
               | Stalled \<Rightarrow> None) = Some r"
  show "pathsOk scrambled st \<longrightarrow> moves r \<noteq> [] \<longrightarrow>
     (\<exists>s'. applyMoves scrambled (moves r) = Some s' \<and> isGoal s' goalCube = Some True)"
  proof (intro impI)
    assume ok: "pathsOk scrambled st" and nonempty: "moves r \<noteq> []"
    show "\<exists>s'. applyMoves scrambled (moves r) = Some s' \<and> isGoal s' goalCube = Some True"
    proof (cases "processNextState env goalCube st")
      case (Resolved r')
      with eq have "r' = r" by simp
      with Resolved ok nonempty show ?thesis using resolved_path by blast
    next
      case (Scheduled st')
      with eq have "loop env goalCube st' = Some r" by simp
      moreover have "pathsOk scrambled st'" by (rule step_pathsOk[OF Scheduled ok])
      ultimately show ?thesis using IH nonempty by blast
    next
      case Thrown
      with eq show ?thesis by simp
    next
      case Stalled
      with eq show ?thesis by simp
    qed
  qed
qed

lemma searchLoop_path:
  "searchLoop env goalCube st = Some r \<Longrightarrow> pathsOk scrambled st \<Longrightarrow> moves r \<noteq> [] \<Longrightarrow>
     \<exists>s'. applyMoves scrambled (moves r) = Some s' \<and> isGoal s' goalCube = Some True"
  using searchLoop_path_aux by blast

lemma scrambleLoop_applyMoves:
  "scrambleLoop picks state applied = Some (s, ms) \<Longrightarrow>
     \<exists>ms'. ms = applied @ ms' \<and> applyMoves state ms' = Some s \<and> length ms' = length picks
        \<and> set ms' \<subseteq> (\<lambda>r. validMoves ! r) ` set picks"
proof (induction picks arbitrary: state applied)
  case Nil
  then show ?case by simp
next
  case (Cons p picks)
  from Cons.prems obtain s1 where s1: "applyMove state (validMoves ! p) = Some s1"
    and rest: "scrambleLoop picks s1 (applied @ [validMoves ! p]) = Some (s, ms)"
    by (auto simp: bind_eq_Some_conv)
  from Cons.IH[OF rest] obtain ms' where
    "ms = (applied @ [validMoves ! p]) @ ms'" "applyMoves s1 ms' = Some s"
    "length ms' = length picks" "set ms' \<subseteq> (\<lambda>r. validMoves ! r) ` set picks"
    by blast
  with s1 show ?case
    by (intro exI[of _ "(validMoves ! p) # ms'"]) auto
qed

text \<open>
  C2. When \<^verbatim>\<open>solveCube\<close> resolves with a non-empty list of moves, applying these moves in
  order to the scrambled state gives a state that \<^verbatim>\<open>isGoal\<close> accepts for the goal. This
  holds for every start state, so for one that \<^verbatim>\<open>scrambleCube\<close> returned.
\<close>

theorem solution_reaches_goal:
  assumes "solveCube env scrambledCube goalCube = Some r" and "moves r \<noteq> []"
  shows "\<exists>s'. applyMoves scrambledCube (moves r) = Some s' \<and> isGoal s' goalCube = Some True"
proof -
  from assms(1) obtain h hs where
    run: "searchLoop env goalCube (initialSearch scrambledCube h hs) = Some r"
    by (auto simp: solveCube_def initialSearch_def split: prod.splits awaited.splits)
  have "pathsOk scrambledCube (initialSearch scrambledCube h hs)"
    by (simp add: pathsOk_def initialSearch_def)
  from searchLoop_path[OF run this assms(2)] show ?thesis .
qed

theorem solution_reaches_goal_witness:
  "\<exists>s ms r. scrambleCube [6] = Some (s, ms) \<and> ms = [''R'']
      \<and> solveCube \<lparr> genAI = None, startTime = 0, resolveTime = 5 \<rparr> s createSolvedCube = Some r
      \<and> moves r = [''R'' @ [CHR 0x27]] \<and> moves r \<noteq> []
      \<and> (\<exists>s'. applyMoves s (moves r) = Some s' \<and> isGoal s' createSolvedCube = Some True)"
proof -
  let ?s = "\<lparr> faces =
      [[Num 0, Num 0, Num 2, Num 0, Num 0, Num 2, Num 0, Num 0, Num 2],
       [Num 1, Num 1, Num 1, Num 1, Num 1, Num 1, Num 1, Num 1, Num 1],
       [Num 2, Num 2, Num 5, Num 2, Num 2, Num 5, Num 2, Num 2, Num 5],
       [Num 3, Num 3, Num 3, Num 3, Num 3, Num 3, Num 3, Num 3, Num 3],
       [Num 0, Num 4, Num 4, Num 0, Num 4, Num 4, Num 0, Num 4, Num 4],
       [Num 5, Num 5, Num 4, Num 5, Num 5, Num 4, Num 5, Num 5, Num 4]] \<rparr>"
  let ?r = "\<lparr> moves = [''R'' @ [CHR 0x27]], statesExplored = 2, timeMs = 5 \<rparr>"
  have sc: "scrambleCube [6] = Some (?s, [''R''])"
    by code_simp
  have run: "solveCube \<lparr> genAI = None, startTime = 0, resolveTime = 5 \<rparr> ?s createSolvedCube
               = Some ?r"
    by code_simp
  have ne: "moves ?r \<noteq> []" by simp
  from solution_reaches_goal[OF run ne] sc run show ?thesis by auto
qed

section \<open>The visited set\<close>

lemma step_visited:
  assumes "processNextState env goalCube st = Scheduled st'"
  shows "visited st' = visited st \<union> hashCubeState ` set_option (expandedCube st)"
proof -
  from assms have ne: "openSet st \<noteq> []"
    by (auto simp: processNextState_def)
  show ?thesis
  proof (cases "hashCubeState (cube (hd (sort_key fScore (openSet st)))) \<in> visited st")
    case True
    with assms ne show ?thesis
      by (auto simp: processNextState_def expandedCube_def Let_def)
  next
    case False
    with assms ne show ?thesis
      by (auto simp: processNextState_def expandedCube_def Let_def
               split: option.splits bool.splits awaited.splits)
  qed
qed

lemma resolved_count:
  assumes "processNextState env goalCube st = Resolved r"
  shows "statesExplored r = card (visited st \<union> hashCubeState ` set_option (expandedCube st))"
  using assms
  by (auto simp: processNextState_def expandedCube_def Let_def
           split: if_splits option.splits bool.splits awaited.splits)

lemma expandedCube_fresh:
  "expandedCube st = Some c \<Longrightarrow> hashCubeState c \<notin> visited st"
  by (auto simp: expandedCube_def Let_def split: if_splits)

lemma afterSteps_Suc_back:
  "afterSteps env goalCube (Suc n) st0 = Some st \<longleftrightarrow>
     (\<exists>stn. afterSteps env goalCube n st0 = Some stn
           \<and> processNextState env goalCube stn = Scheduled st)"
proof (induction n arbitrary: st0)
  case 0
  show ?case by (auto split: outcome.splits)
next
  case (Suc n)
  show ?case
  proof (cases "processNextState env goalCube st0")
    case (Scheduled st1)
    then show ?thesis using Suc.IH[of st1] by simp
  qed simp_all
qed

lemma expandedBy_iff:
  "c \<in> expandedBy env goalCube st0 n \<longleftrightarrow>
     (\<exists>i < n. \<exists>sti. afterSteps env goalCube i st0 = Some sti \<and> expandedCube sti = Some c)"
proof (induction n)
  case 0
  show ?case by simp
next
  case (Suc n)
  have "c \<in> set_option (afterSteps env goalCube n st0 \<bind> expandedCube) \<longleftrightarrow>
          (\<exists>stn. afterSteps env goalCube n st0 = Some stn \<and> expandedCube stn = Some c)"
    by (auto simp: bind_eq_Some_conv)
  with Suc.IH show ?case
    by (auto simp: less_Suc_eq)
qed

lemma afterSteps_visited:
  "afterSteps env goalCube n st0 = Some st \<Longrightarrow>
     visited st = visited st0 \<union> hashCubeState ` expandedBy env goalCube st0 n"
proof (induction n arbitrary: st)
  case 0
  then show ?case by simp
next
  case (Suc n)
  then obtain stn where stn: "afterSteps env goalCube n st0 = Some stn"
    and step: "processNextState env goalCube stn = Scheduled st"
    using afterSteps_Suc_back by blast
  from Suc.IH[OF stn] step_visited[OF step] stn show ?case
    by (simp add: image_Un Un_assoc)
qed

lemma expanded_keys_differ:
  assumes "i < j"
    and "afterSteps env goalCube i st0 = Some sti" and "expandedCube sti = Some c"
    and "afterSteps env goalCube j st0 = Some stj" and "expandedCube stj = Some c'"
  shows "hashCubeState c \<noteq> hashCubeState c'"
proof -
  from assms(1-3) have "c \<in> expandedBy env goalCube st0 j"
    by (auto simp: expandedBy_iff)
  with afterSteps_visited[OF assms(4)] have "hashCubeState c \<in> visited stj" by simp
  with expandedCube_fresh[OF assms(5)] show ?thesis by auto
qed

lemma hash_inj_on_expanded: "inj_on hashCubeState (expandedBy env goalCube st0 n)"
proof (rule inj_onI)
  fix c c'
  assume "c \<in> expandedBy env goalCube st0 n" and "c' \<in> expandedBy env goalCube st0 n"
    and eq: "hashCubeState c = hashCubeState c'"
  then obtain i sti j stj where
    i: "afterSteps env goalCube i st0 = Some sti" "expandedCube sti = Some c" and
    j: "afterSteps env goalCube j st0 = Some stj" "expandedCube stj = Some c'"
    by (auto simp: expandedBy_iff)
  consider "i < j" | "j < i" | "i = j" by linarith
  then show "c = c'"
  proof cases
    case 1
    from expanded_keys_differ[OF 1 i j] eq show ?thesis by simp
  next
    case 2
    from expanded_keys_differ[OF 2 j i] eq show ?thesis by simp
  next
    case 3
    with i j show ?thesis by simp
  qed
qed

text \<open>
  C6. Within one search: a key in the visited set stays in it; a popped node whose key
  is visited is dropped, and the call does nothing else (the rest of the frontier, the
  visited set and the heuristic state are unchanged); two different calls never expand
  the same state; and a search started with an empty visited set that resolves after
  \<open>n\<close> rescheduled calls reports as \<open>statesExplored\<close> the size of the visited set, which is
  the number of distinct states expanded by its \<open>n + 1\<close> calls.
\<close>

theorem visited_once:
  "(afterSteps env goalCube n st0 = Some st \<longrightarrow> visited st0 \<subseteq> visited st)
   \<and> (openSet st \<noteq> [] \<and> hashCubeState (cube (hd (sort_key fScore (openSet st)))) \<in> visited st
        \<longrightarrow> expandedCube st = None
          \<and> processNextState env goalCube st
              = Scheduled (st\<lparr> openSet := tl (sort_key fScore (openSet st)) \<rparr>))
   \<and> (i < j \<and> afterSteps env goalCube i st0 = Some sti \<and> expandedCube sti = Some c
        \<and> afterSteps env goalCube j st0 = Some stj \<and> expandedCube stj = Some c'
        \<longrightarrow> c \<noteq> c')
   \<and> (visited st0 = {} \<and> afterSteps env goalCube n st0 = Some st
        \<and> processNextState env goalCube st = Resolved r
        \<longrightarrow> statesExplored r = card (visited st \<union> hashCubeState ` set_option (expandedCube st))
          \<and> statesExplored r = card (expandedBy env goalCube st0 (Suc n)))"
proof (intro conjI impI)
  assume "afterSteps env goalCube n st0 = Some st"
  from afterSteps_visited[OF this] show "visited st0 \<subseteq> visited st" by simp
next
  assume a: "openSet st \<noteq> [] \<and> hashCubeState (cube (hd (sort_key fScore (openSet st)))) \<in> visited st"
  then show "expandedCube st = None"
    by (simp add: expandedCube_def)
  from a show "processNextState env goalCube st
              = Scheduled (st\<lparr> openSet := tl (sort_key fScore (openSet st)) \<rparr>)"
    by (simp add: processNextState_def Let_def)
next
  assume "i < j \<and> afterSteps env goalCube i st0 = Some sti \<and> expandedCube sti = Some c
        \<and> afterSteps env goalCube j st0 = Some stj \<and> expandedCube stj = Some c'"
  then have "hashCubeState c \<noteq> hashCubeState c'"
    using expanded_keys_differ by blast
  then show "c \<noteq> c'" by auto
next
  assume a: "visited st0 = {} \<and> afterSteps env goalCube n st0 = Some st
        \<and> processNextState env goalCube st = Resolved r"
  then have r: "statesExplored r = card (visited st \<union> hashCubeState ` set_option (expandedCube st))"
    using resolved_count by blast
  then show "statesExplored r = card (visited st \<union> hashCubeState ` set_option (expandedCube st))" .
  from a afterSteps_visited[of env goalCube n st0 st]
  have "visited st \<union> hashCubeState ` set_option (expandedCube st)
          = hashCubeState ` expandedBy env goalCube st0 (Suc n)"
    by (simp add: image_Un)
  with r have "statesExplored r = card (hashCubeState ` expandedBy env goalCube st0 (Suc n))"
    by (simp only:)
  also have "\<dots> = card (expandedBy env goalCube st0 (Suc n))"
    by (rule card_image[OF hash_inj_on_expanded])
  finally show "statesExplored r = card (expandedBy env goalCube st0 (Suc n))" .
qed

theorem visited_once_witness:
  "\<exists>s st0 st1 dup r.
      scrambleCube [6] = Some (s, [''R''])
    \<and> st0 = initialSearch s 2 \<lparr> heuristicCallCount = 1, aiHeuristicCache = Map.empty,
                                   oracleRequests = [] \<rparr>
    \<and> visited st0 = {}
    \<and> afterSteps \<lparr> genAI = None, startTime = 0, resolveTime = 5 \<rparr> createSolvedCube 0 st0 = Some st0
    \<and> afterSteps \<lparr> genAI = None, startTime = 0, resolveTime = 5 \<rparr> createSolvedCube 1 st0 = Some st1
    \<and> expandedCube st0 = Some s \<and> expandedCube st1 = Some createSolvedCube
    \<and> processNextState \<lparr> genAI = None, startTime = 0, resolveTime = 5 \<rparr> createSolvedCube st1
         = Resolved r
    \<and> visited st0 \<subseteq> visited st1
    \<and> s \<noteq> createSolvedCube
    \<and> statesExplored r
         = card (expandedBy \<lparr> genAI = None, startTime = 0, resolveTime = 5 \<rparr> createSolvedCube st0 2)
    \<and> dup = st0\<lparr> visited := {hashCubeState s} \<rparr>
    \<and> openSet dup \<noteq> []
    \<and> hashCubeState (cube (hd (sort_key fScore (openSet dup)))) \<in> visited dup
    \<and> expandedCube dup = None
    \<and> processNextState \<lparr> genAI = None, startTime = 0, resolveTime = 5 \<rparr> createSolvedCube dup
         = Scheduled (dup\<lparr> openSet := tl (sort_key fScore (openSet dup)) \<rparr>)"
proof -
  let ?env = "\<lparr> genAI = None, startTime = 0, resolveTime = 5 \<rparr>"
  let ?s = "\<lparr> faces =
      [[Num 0, Num 0, Num 2, Num 0, Num 0, Num 2, Num 0, Num 0, Num 2],
       [Num 1, Num 1, Num 1, Num 1, Num 1, Num 1, Num 1, Num 1, Num 1],
       [Num 2, Num 2, Num 5, Num 2, Num 2, Num 5, Num 2, Num 2, Num 5],
       [Num 3, Num 3, Num 3, Num 3, Num 3, Num 3, Num 3, Num 3, Num 3],
       [Num 0, Num 4, Num 4, Num 0, Num 4, Num 4, Num 0, Num 4, Num 4],
       [Num 5, Num 5, Num 4, Num 5, Num 5, Num 4, Num 5, Num 5, Num 4]] \<rparr>"
  let ?st0 = "initialSearch ?s 2 \<lparr> heuristicCallCount = 1, aiHeuristicCache = Map.empty,
                                   oracleRequests = [] \<rparr>"
  let ?dup = "?st0\<lparr> visited := {hashCubeState ?s} \<rparr>"
  have sc: "scrambleCube [6] = Some (?s, [''R''])"
    by code_simp
  have "case afterSteps ?env createSolvedCube 1 ?st0 of
          None \<Rightarrow> False
        | Some st1 \<Rightarrow> expandedCube st1 = Some createSolvedCube
            \<and> (case processNextState ?env createSolvedCube st1 of
                  Resolved r \<Rightarrow> True | Scheduled st2 \<Rightarrow> False | Thrown \<Rightarrow> False
                | Stalled \<Rightarrow> False)"
    by code_simp
  then obtain st1 r where st1: "afterSteps ?env createSolvedCube 1 ?st0 = Some st1"
    and e1: "expandedCube st1 = Some createSolvedCube"
    and res: "processNextState ?env createSolvedCube st1 = Resolved r"
    by (auto split: option.splits outcome.splits)
  have e0: "expandedCube ?st0 = Some ?s"
    by (simp add: expandedCube_def initialSearch_def)
  have a0: "afterSteps ?env createSolvedCube 0 ?st0 = Some ?st0" by simp
  have v0: "visited ?st0 = {}" by (simp add: initialSearch_def)
  have d: "openSet ?dup \<noteq> []"
    "hashCubeState (cube (hd (sort_key fScore (openSet ?dup)))) \<in> visited ?dup"
    by (simp_all add: initialSearch_def)
  from visited_once[of ?env createSolvedCube 1 ?st0 st1 0 1 ?st0 ?s st1 createSolvedCube r]
    st1 e1 res e0 a0 v0
  have t1: "visited ?st0 \<subseteq> visited st1" "?s \<noteq> createSolvedCube"
    "statesExplored r = card (expandedBy ?env createSolvedCube ?st0 2)"
    by (simp_all add: numeral_2_eq_2)
  from visited_once[of ?env createSolvedCube _ _ ?dup] d
  have t2: "expandedCube ?dup = None"
    "processNextState ?env createSolvedCube ?dup
       = Scheduled (?dup\<lparr> openSet := tl (sort_key fScore (openSet ?dup)) \<rparr>)"
    by blast+
  from sc v0 a0 st1 e0 e1 res t1 d t2 show ?thesis by blast
qed

section \<open>The search resolves\<close>

lemma finite_states:
  assumes "finite A"
  shows "finite {s. wellFormed s \<and> set (facelets s) \<subseteq> A}"
proof -
  let ?rows = "{f :: face. set f \<subseteq> A \<and> length f = 9}"
  let ?grids = "{fs :: face list. set fs \<subseteq> ?rows \<and> length fs = 6}"
  have "finite ?rows" using assms by (rule finite_lists_length_eq)
  then have fin: "finite ?grids" by (rule finite_lists_length_eq)
  have "{s. wellFormed s \<and> set (facelets s) \<subseteq> A} \<subseteq> (\<lambda>fs. \<lparr> faces = fs \<rparr>) ` ?grids"
  proof
    fix s assume "s \<in> {s. wellFormed s \<and> set (facelets s) \<subseteq> A}"
    then have wf: "wellFormed s" and sub: "set (facelets s) \<subseteq> A" by simp_all
    from wf sub have "faces s \<in> ?grids"
      by (auto simp: wellFormed_def facelets_def)
    moreover have "s = \<lparr> faces = faces s \<rparr>" by simp
    ultimately show "s \<in> (\<lambda>fs. \<lparr> faces = fs \<rparr>) ` ?grids" by (rule rev_image_eqI)
  qed
  with fin show ?thesis by (meson finite_imageI finite_subset)
qed

lemma finite_keysWithin: "finite A \<Longrightarrow> finite (keysWithin A)"
  unfolding keysWithin_def by (intro finite_imageI finite_states)

lemma expand_total:
  assumes "wellFormed (cube cur)" and "wellFormed goalCube" and "settles ai"
  shows "\<exists>fr' hs'. expand ai goalCube cur vis ms (fr, hs) = Returned (fr', hs')"
proof (induction ms arbitrary: fr hs)
  case Nil
  show ?case by simp
next
  case (Cons m ms)
  from applyMove_total[OF assms(1), of m] obtain c where
    c: "applyMove (cube cur) m = Some c" "wellFormed c" by blast
  show ?case
  proof (cases "hashCubeState c \<notin> vis")
    case True
    from getSmartHeuristic_total[OF c(2) assms(2,3), of hs] obtain h hs1 where
      "getSmartHeuristic ai hs c goalCube = (Returned h, hs1)" by blast
    with c True Cons.IH show ?thesis by simp
  next
    case False
    with c Cons.IH show ?thesis by simp
  qed
qed

lemma step_progress:
  assumes fin: "finite A" and goal: "wellFormed goalCube" and ora: "settles (genAI env)"
    and inv: "frontierWithin A st"
  shows "(\<exists>r. processNextState env goalCube st = Resolved r)
       \<or> (\<exists>st'. processNextState env goalCube st = Scheduled st' \<and> frontierWithin A st'
            \<and> (st', st) \<in> measures [\<lambda>st. card (keysWithin A - visited st),
                                       \<lambda>st. length (openSet st)])"
proof (cases "openSet st = []")
  case True
  then show ?thesis by (simp add: processNextState_def)
next
  case ne: False
  let ?sorted = "sort_key fScore (openSet st)"
  let ?cur = "hd ?sorted"
  let ?rest = "tl ?sorted"
  let ?key = "hashCubeState (cube ?cur)"
  have cur: "wellFormed (cube ?cur)" "set (facelets (cube ?cur)) \<subseteq> A"
    using inv current_in_openSet[OF ne] by (simp_all add: frontierWithin_def)
  have rest: "\<forall>n \<in> set ?rest. wellFormed (cube n) \<and> set (facelets (cube n)) \<subseteq> A"
    using inv rest_in_openSet by (auto simp: frontierWithin_def)
  have len: "length ?rest < length (openSet st)"
    using ne by (simp add: length_greater_0_conv)
  show ?thesis
  proof (cases "?key \<in> visited st")
    case True
    with ne have "processNextState env goalCube st = Scheduled (st\<lparr> openSet := ?rest \<rparr>)"
      by (simp add: processNextState_def Let_def)
    moreover have "frontierWithin A (st\<lparr> openSet := ?rest \<rparr>)"
      using rest by (simp add: frontierWithin_def)
    ultimately show ?thesis using len by simp
  next
    case new: False
    let ?vis = "insert ?key (visited st)"
    have "?key \<in> keysWithin A" using cur by (auto simp: keysWithin_def)
    with new have "?key \<in> keysWithin A - visited st" by simp
    moreover have "finite (keysWithin A - visited st)"
      using finite_keysWithin[OF fin] by simp
    ultimately have "card ((keysWithin A - visited st) - {?key}) < card (keysWithin A - visited st)"
      by (rule card_Diff1_less[rotated])
    moreover have "keysWithin A - ?vis = (keysWithin A - visited st) - {?key}" by auto
    ultimately have less: "card (keysWithin A - ?vis) < card (keysWithin A - visited st)"
      by (simp only:)
    from isGoal_total[OF cur(1) goal] obtain b where b: "isGoal (cube ?cur) goalCube = Some b"
      by blast
    show ?thesis
    proof (cases b)
      case True
      with b ne new show ?thesis by (simp add: processNextState_def Let_def)
    next
      case False
      from expand_total[OF cur(1) goal ora, of ?vis validMoves ?rest "heur st"]
      obtain fr' hs' where
        ex: "expand (genAI env) goalCube ?cur ?vis validMoves (?rest, heur st)
               = Returned (fr', hs')"
        by blast
      have "\<forall>n \<in> set fr'. wellFormed (cube n) \<and> set (facelets (cube n)) \<subseteq> A"
      proof (rule expand_preserves[OF ex rest])
        fix m c h
        assume "applyMove (cube ?cur) m = Some c"
        with applyMove_total[OF cur(1), of m] have "wellFormed c"
          and "mset (facelets c) = mset (facelets (cube ?cur))" by auto
        with cur(2) have "wellFormed c \<and> set (facelets c) \<subseteq> A"
          using mset_eq_setD by blast
        then show "wellFormed (cube \<lparr>cube = c, gScore = gScore ?cur + 1, hScore = h,
                     fScore = gScore ?cur + 1 + h, moves = State.moves ?cur @ [m]\<rparr>)
                 \<and> set (facelets (cube \<lparr>cube = c, gScore = gScore ?cur + 1, hScore = h,
                     fScore = gScore ?cur + 1 + h, moves = State.moves ?cur @ [m]\<rparr>)) \<subseteq> A"
          by simp
      qed
      then have "frontierWithin A \<lparr> openSet = fr', visited = ?vis, heur = hs' \<rparr>"
        by (simp add: frontierWithin_def)
      moreover have "processNextState env goalCube st
                       = Scheduled \<lparr> openSet = fr', visited = ?vis, heur = hs' \<rparr>"
        using ne new b False ex by (simp add: processNextState_def Let_def)
      ultimately show ?thesis using less by simp
    qed
  qed
qed

lemma searchLoop_resolves:
  assumes fin: "finite A" and goal: "wellFormed goalCube" and ora: "settles (genAI env)"
  shows "frontierWithin A st \<Longrightarrow> \<exists>r. searchLoop env goalCube st = Some r"
proof (induction st rule: wf_induct_rule[OF wf_measures[of
         "[\<lambda>st. card (keysWithin A - visited st), \<lambda>st. length (openSet st)]"]])
  case (1 st)
  from step_progress[OF fin goal ora "1.prems"] show ?case
  proof (elim disjE exE conjE)
    fix r assume "processNextState env goalCube st = Resolved r"
    then show ?thesis by (subst searchLoop.simps) simp
  next
    fix st' assume st': "processNextState env goalCube st = Scheduled st'"
      "frontierWithin A st'"
      "(st', st) \<in> measures [\<lambda>st. card (keysWithin A - visited st), \<lambda>st. length (openSet st)]"
    from "1.IH"[OF st'(3) st'(2)] obtain r where "searchLoop env goalCube st' = Some r" by blast
    with st'(1) show ?thesis by (subst searchLoop.simps) simp
  qed
qed

text \<open>
  C7. On a scrambled state and a goal of six faces of nine facelets, with no
  oracle or with an oracle whose every request settles (with a response or a failure),
  \<^verbatim>\<open>solveCube\<close> resolves with a result; the promise has no reject path, so it never throws
  or rejects. A call of \<^verbatim>\<open>processNextState\<close> that finds the frontier empty resolves with
  the empty move list, the size of the visited set and the elapsed time.
\<close>

theorem solveCube_resolves:
  "(wellFormed scrambledCube \<and> wellFormed goalCube \<and> settles (genAI env)
      \<longrightarrow> (\<exists>r. solveCube env scrambledCube goalCube = Some r))
   \<and> (openSet st = []
      \<longrightarrow> processNextState env goalCube st
            = Resolved \<lparr> moves = [], statesExplored = card (visited st),
                         timeMs = resolveTime env - startTime env \<rparr>
        \<and> searchLoop env goalCube st
            = Some \<lparr> moves = [], statesExplored = card (visited st),
                     timeMs = resolveTime env - startTime env \<rparr>)"
proof (intro conjI impI)
  assume wf: "wellFormed scrambledCube \<and> wellFormed goalCube \<and> settles (genAI env)"
  let ?hs0 = "\<lparr> heuristicCallCount = 0, aiHeuristicCache = Map.empty, oracleRequests = [] \<rparr>"
  from wf getSmartHeuristic_total[of scrambledCube goalCube "genAI env" ?hs0]
  obtain h hs where
    h: "getSmartHeuristic (genAI env) ?hs0 scrambledCube goalCube = (Returned h, hs)"
    by blast
  have "frontierWithin (set (facelets scrambledCube)) (initialSearch scrambledCube h hs)"
    using wf by (simp add: frontierWithin_def initialSearch_def)
  from searchLoop_resolves[OF _ _ _ this, of goalCube env] wf
  obtain r where "searchLoop env goalCube (initialSearch scrambledCube h hs) = Some r"
    by auto
  with h show "\<exists>r. solveCube env scrambledCube goalCube = Some r"
    by (simp add: solveCube_def initialSearch_def)
next
  assume e: "openSet st = []"
  then show p: "processNextState env goalCube st
            = Resolved \<lparr> moves = [], statesExplored = card (visited st),
                         timeMs = resolveTime env - startTime env \<rparr>"
    by (simp add: processNextState_def)
  then show "searchLoop env goalCube st
            = Some \<lparr> moves = [], statesExplored = card (visited st),
                     timeMs = resolveTime env - startTime env \<rparr>"
    by (subst searchLoop.simps) simp
qed

theorem solveCube_resolves_witness:
  "wellFormed createSolvedCube
   \<and> settles (genAI \<lparr> genAI = Some (\<lambda>n p. Failure), startTime = 0, resolveTime = 5 \<rparr>)
   \<and> (\<exists>s. applyMoves createSolvedCube [''U'', ''R'', ''U'' @ [CHR 0x27], ''R'' @ [CHR 0x27]] = Some s
        \<and> wellFormed s
        \<and> (\<exists>r. solveCube \<lparr> genAI = Some (\<lambda>n p. Failure), startTime = 0, resolveTime = 5 \<rparr>
                  s createSolvedCube = Some r))
   \<and> openSet \<lparr> openSet = [], visited = {''a'', ''b''},
               heur = \<lparr> heuristicCallCount = 3, aiHeuristicCache = Map.empty,
                        oracleRequests = [] \<rparr> \<rparr> = []
   \<and> searchLoop \<lparr> genAI = None, startTime = 0, resolveTime = 5 \<rparr> createSolvedCube
        \<lparr> openSet = [], visited = {''a'', ''b''},
          heur = \<lparr> heuristicCallCount = 3, aiHeuristicCache = Map.empty,
                   oracleRequests = [] \<rparr> \<rparr>
       = Some \<lparr> moves = [], statesExplored = 2, timeMs = 5 \<rparr>"
proof -
  let ?st = "\<lparr> openSet = [], visited = {''a'', ''b''},
               heur = \<lparr> heuristicCallCount = 3, aiHeuristicCache = Map.empty,
                        oracleRequests = [] \<rparr> \<rparr>"
  let ?env = "\<lparr> genAI = Some (\<lambda>n p. Failure), startTime = 0, resolveTime = 5 \<rparr>"
  have wf: "wellFormed createSolvedCube" by (rule wellFormed_createSolvedCube)
  have ora: "settles (genAI ?env)" by (simp add: settles_def)
  have "set [''U'', ''R'', ''U'' @ [CHR 0x27], ''R'' @ [CHR 0x27]] \<subseteq> set validMoves"
    by (simp add: validMoves_def)
  from applyMoves_valid[OF wf this] obtain s where
    s: "applyMoves createSolvedCube [''U'', ''R'', ''U'' @ [CHR 0x27], ''R'' @ [CHR 0x27]] = Some s"
    "wellFormed s" by blast
  from solveCube_resolves[where scrambledCube = s and goalCube = createSolvedCube
      and env = ?env] s(2) wf ora
  have r: "\<exists>r. solveCube ?env s createSolvedCube = Some r"
    by blast
  have e: "openSet ?st = []" by simp
  from solveCube_resolves[where env = "\<lparr> genAI = None, startTime = 0, resolveTime = 5 \<rparr>"
      and st = ?st and goalCube = createSolvedCube] e
  have "searchLoop \<lparr> genAI = None, startTime = 0, resolveTime = 5 \<rparr> createSolvedCube ?st
       = Some \<lparr> moves = [], statesExplored = card (visited ?st),
                     timeMs = resolveTime \<lparr> genAI = None, startTime = 0, resolveTime = 5 \<rparr>
                              - startTime \<lparr> genAI = None, startTime = 0, resolveTime = 5 \<rparr> \<rparr>"
    by blast
  then have l: "searchLoop \<lparr> genAI = None, startTime = 0, resolveTime = 5 \<rparr> createSolvedCube ?st
       = Some \<lparr> moves = [], statesExplored = 2, timeMs = 5 \<rparr>"
    by simp
  from wf ora s r e l show ?thesis by blast
qed

text \<open>
  Without these conditions the promise can stay pending for ever. On a state with no
  faces, scoring the start node throws inside the executor; and on the solved cube
  turned by R then U, with an oracle that never answers, the fifteenth scoring waits for
  ever. In both cases \<^verbatim>\<open>solveCube\<close> neither resolves nor rejects.
\<close>

theorem solveCube_pending_counterexample:
  "solveCube \<lparr> genAI = None, startTime = 0, resolveTime = 5 \<rparr>
      \<lparr> faces = [] \<rparr> createSolvedCube = None
   \<and> solveCube \<lparr> genAI = Some silentOracle, startTime = 0, resolveTime = 5 \<rparr>
      \<lparr> faces =
         [[Num 0, Num 0, Num 0, Num 0, Num 0, Num 0, Num 2, Num 2, Num 2],
          [Num 2, Num 2, Num 5, Num 1, Num 1, Num 1, Num 1, Num 1, Num 1],
          [Num 3, Num 3, Num 3, Num 2, Num 2, Num 5, Num 2, Num 2, Num 5],
          [Num 0, Num 4, Num 4, Num 3, Num 3, Num 3, Num 3, Num 3, Num 3],
          [Num 1, Num 1, Num 1, Num 0, Num 4, Num 4, Num 0, Num 4, Num 4],
          [Num 5, Num 5, Num 4, Num 5, Num 5, Num 4, Num 5, Num 5, Num 4]] \<rparr>
      createSolvedCube = None
   \<and> applyMoves createSolvedCube [''R'', ''U'']
       = Some \<lparr> faces =
         [[Num 0, Num 0, Num 0, Num 0, Num 0, Num 0, Num 2, Num 2, Num 2],
          [Num 2, Num 2, Num 5, Num 1, Num 1, Num 1, Num 1, Num 1, Num 1],
          [Num 3, Num 3, Num 3, Num 2, Num 2, Num 5, Num 2, Num 2, Num 5],
          [Num 0, Num 4, Num 4, Num 3, Num 3, Num 3, Num 3, Num 3, Num 3],
          [Num 1, Num 1, Num 1, Num 0, Num 4, Num 4, Num 0, Num 4, Num 4],
          [Num 5, Num 5, Num 4, Num 5, Num 5, Num 4, Num 5, Num 5, Num 4]] \<rparr>"
  by code_simp

section \<open>Moves allocate and never write to their input\<close>

lemma wr_length: "wr fs k j v = Some fs' \<Longrightarrow> length fs' = length fs"
  by (auto simp: wr_def faceAt_def bind_eq_Some_conv split: if_splits)

lemma cp_length: "cp fs dst src = Some fs' \<Longrightarrow> length fs' = length fs"
  by (auto simp: cp_def bind_eq_Some_conv dest: wr_length)

lemma permFace_length: "permFace fs k p = Some fs' \<Longrightarrow> length fs' = length fs"
  by (auto simp: permFace_def faceAt_def bind_eq_Some_conv split: if_splits)

lemma moveU_length: "moveU fs = Some fs' \<Longrightarrow> length fs' = length fs"
  unfolding moveU_def bind_eq_Some_conv
  by (elim exE conjE) (simp add: wr_length cp_length permFace_length)

lemma moveUPrime_length: "moveUPrime fs = Some fs' \<Longrightarrow> length fs' = length fs"
  unfolding moveUPrime_def bind_eq_Some_conv
  by (elim exE conjE) (simp add: wr_length cp_length permFace_length)

lemma moveU2_length: "moveU2 fs = Some fs' \<Longrightarrow> length fs' = length fs"
  unfolding moveU2_def bind_eq_Some_conv
  by (elim exE conjE) (simp add: wr_length cp_length permFace_length)

lemma moveD_length: "moveD fs = Some fs' \<Longrightarrow> length fs' = length fs"
  unfolding moveD_def bind_eq_Some_conv
  by (elim exE conjE) (simp add: wr_length cp_length permFace_length)

lemma moveDPrime_length: "moveDPrime fs = Some fs' \<Longrightarrow> length fs' = length fs"
  unfolding moveDPrime_def bind_eq_Some_conv
  by (elim exE conjE) (simp add: wr_length cp_length permFace_length)

lemma moveD2_length: "moveD2 fs = Some fs' \<Longrightarrow> length fs' = length fs"
  unfolding moveD2_def bind_eq_Some_conv
  by (elim exE conjE) (simp add: wr_length cp_length permFace_length)

lemma moveR_length: "moveR fs = Some fs' \<Longrightarrow> length fs' = length fs"
  unfolding moveR_def bind_eq_Some_conv
  by (elim exE conjE) (simp add: wr_length cp_length permFace_length)

lemma moveRPrime_length: "moveRPrime fs = Some fs' \<Longrightarrow> length fs' = length fs"
  unfolding moveRPrime_def bind_eq_Some_conv
  by (elim exE conjE) (simp add: wr_length cp_length permFace_length)

lemma moveR2_length: "moveR2 fs = Some fs' \<Longrightarrow> length fs' = length fs"
  unfolding moveR2_def bind_eq_Some_conv
  by (elim exE conjE) (simp add: wr_length cp_length permFace_length)

lemma moveL_length: "moveL fs = Some fs' \<Longrightarrow> length fs' = length fs"
  unfolding moveL_def bind_eq_Some_conv
  by (elim exE conjE) (simp add: wr_length cp_length permFace_length)

lemma moveLPrime_length: "moveLPrime fs = Some fs' \<Longrightarrow> length fs' = length fs"
  unfolding moveLPrime_def bind_eq_Some_conv
  by (elim exE conjE) (simp add: wr_length cp_length permFace_length)

lemma moveL2_length: "moveL2 fs = Some fs' \<Longrightarrow> length fs' = length fs"
  unfolding moveL2_def bind_eq_Some_conv
  by (elim exE conjE) (simp add: wr_length cp_length permFace_length)

lemma moveBody_length: "moveBody m fs = Some fs' \<Longrightarrow> length fs' = length fs"
  unfolding moveBody_def
  by (auto split: if_splits
           dest: moveU_length moveUPrime_length moveU2_length moveD_length moveDPrime_length
                 moveD2_length moveR_length moveRPrime_length moveR2_length moveL_length
                 moveLPrime_length moveL2_length)

lemma rowAt_Some: "rowAt h a = Some xs \<longleftrightarrow> a < length h \<and> h ! a = Row xs"
  by (auto simp: rowAt_def split: obj.splits)

lemma readRows_Some:
  "readRows h as = Some fs \<longleftrightarrow>
     length fs = length as \<and> (\<forall>i < length as. as ! i < length h \<and> h ! (as ! i) = Row (fs ! i))"
proof (induction as arbitrary: fs)
  case Nil
  show ?case by auto
next
  case (Cons a as)
  show ?case
  proof (cases fs)
    case Nil
    then show ?thesis by (auto simp: bind_eq_Some_conv)
  next
    case (Cons f fs')
    have "(\<forall>i < Suc (length as). (a # as) ! i < length h \<and> h ! ((a # as) ! i) = Row ((f # fs') ! i))
          \<longleftrightarrow> (a < length h \<and> h ! a = Row f)
              \<and> (\<forall>i < length as. as ! i < length h \<and> h ! (as ! i) = Row (fs' ! i))"
      by (auto simp: less_Suc_eq_0_disj)
    with Cons Cons.IH[of fs'] show ?thesis
      by (auto simp: bind_eq_Some_conv rowAt_Some)
  qed
qed

lemma copyRows_frame:
  "copyRows h as = Some (h1, as') \<Longrightarrow>
     (\<exists>ys. h1 = h @ ys \<and> length ys = length as) \<and> as' = [length h..<length h + length as]"
proof (induction as arbitrary: h h1 as')
  case Nil
  then show ?case by simp
next
  case (Cons a as)
  from Cons.prems obtain xs h2 as2 where
    xs: "rowAt h a = Some xs" and
    rest: "copyRows (h @ [Row xs]) as = Some (h2, as2)" and
    res: "h1 = h2" "as' = length h # as2"
    by (auto simp: bind_eq_Some_conv alloc_def)
  from Cons.IH[OF rest] obtain ys where
    ys: "h2 = (h @ [Row xs]) @ ys" "length ys = length as"
    and as2: "as2 = [length (h @ [Row xs])..<length (h @ [Row xs]) + length as]"
    by blast
  from ys res have "h1 = h @ (Row xs # ys) \<and> length (Row xs # ys) = length (a # as)" by simp
  moreover from as2 res have "as' = [length h..<length h + length (a # as)]"
    by (simp add: upt_conv_Cons del: upt_Suc)
  ultimately show ?case by blast
qed

lemma copyRows_spec:
  "readRows h as = Some fs \<Longrightarrow>
     copyRows h as = Some (h @ map Row fs, [length h..<length h + length as])"
proof (induction as arbitrary: h fs)
  case Nil
  then show ?case by simp
next
  case (Cons a as)
  from Cons.prems obtain xs fs' where xs: "rowAt h a = Some xs"
    and fs': "readRows h as = Some fs'" and fs: "fs = xs # fs'"
    by (auto simp: bind_eq_Some_conv)
  from fs' have "readRows (h @ [Row xs]) as = Some fs'"
    by (auto simp: readRows_Some nth_append)
  from Cons.IH[OF this] xs fs show ?case
    by (simp add: alloc_def upt_conv_Cons del: upt_Suc)
qed

lemma storeRows_length: "length (storeRows h as fs) = length h"
  by (induction h as fs rule: storeRows.induct) simp_all

lemma storeRows_other: "a \<notin> set as \<Longrightarrow> storeRows h as fs ! a = h ! a"
  by (induction h as fs rule: storeRows.induct) auto

lemma storeRows_written:
  "distinct as \<Longrightarrow> length fs = length as \<Longrightarrow> \<forall>a \<in> set as. a < length h \<Longrightarrow>
     i < length as \<Longrightarrow> storeRows h as fs ! (as ! i) = Row (fs ! i)"
proof (induction h as fs arbitrary: i rule: storeRows.induct)
  case (1 h a as f fs)
  show ?case
  proof (cases i)
    case 0
    with "1.prems" show ?thesis by (simp add: storeRows_other)
  next
    case (Suc k)
    with "1.prems" "1.IH"[of k] show ?thesis by simp
  qed
qed simp_all

lemma readCube_frame:
  assumes "readCube h c = Some s" and "length h \<le> length h'"
    and "\<forall>a < length h. h' ! a = h ! a"
  shows "readCube h' c = Some s"
proof -
  from assms(1) obtain r as fs where
    r: "facesOf h c = Some r" and as: "rowsAt h r = Some as" and
    fs: "readRows h as = Some fs" and s: "s = \<lparr> faces = fs \<rparr>"
    by (auto simp: readCube_def bind_eq_Some_conv)
  from r assms(2,3) have "facesOf h' c = Some r"
    by (auto simp: facesOf_def split: if_splits)
  moreover from as assms(2,3) have "rowsAt h' r = Some as"
    by (auto simp: rowsAt_def split: if_splits)
  moreover from fs assms(2,3) have "readRows h' as = Some fs"
    by (auto simp: readRows_Some)
  ultimately show ?thesis using s by (simp add: readCube_def)
qed

text \<open>What \<^verbatim>\<open>applyMove\<close> leaves in the store.\<close>

lemma applyMoveS_frame:
  "length h \<le> length (fst (applyMoveS h c m))
   \<and> (\<forall>a < length h. fst (applyMoveS h c m) ! a = h ! a)"
proof (cases "do { r \<leftarrow> facesOf h c; as \<leftarrow> rowsAt h r; copyRows h as }")
  case None
  then show ?thesis by (simp add: applyMoveS_def)
next
  case (Some p)
  obtain h1 as' where p: "p = (h1, as')" by (cases p)
  from Some p obtain as where cr: "copyRows h as = Some (h1, as')"
    by (auto simp: bind_eq_Some_conv)
  from copyRows_frame[OF cr] obtain ys where
    h1: "h1 = h @ ys" and as': "as' = [length h..<length h + length as]" by blast
  let ?h3 = "h1 @ [Rows as'] @ [Cube (length h1)]"
  have h3: "length h \<le> length ?h3" "\<forall>a < length h. ?h3 ! a = h ! a"
    using h1 by (simp_all add: nth_append)
  show ?thesis
  proof (cases "readRows ?h3 as' \<bind> moveBody m")
    case None
    with Some p h3 show ?thesis by (simp add: applyMoveS_def alloc_def)
  next
    case (Some fs')
    have "\<forall>a < length h. a \<notin> set as'" using as' by simp
    then have "\<forall>a < length h. storeRows ?h3 as' fs' ! a = ?h3 ! a"
      by (simp add: storeRows_other)
    with h3 have "length h \<le> length (storeRows ?h3 as' fs')"
      "\<forall>a < length h. storeRows ?h3 as' fs' ! a = h ! a"
      by (simp_all add: storeRows_length)
    with Some \<open>_ = Some p\<close> p show ?thesis by (simp add: applyMoveS_def alloc_def)
  qed
qed

lemma applyMoveS_result:
  assumes "readCube h c = Some s"
  shows "case applyMove s m of
           None \<Rightarrow> snd (applyMoveS h c m) = None
         | Some s' \<Rightarrow>
             \<exists>newCube. snd (applyMoveS h c m) = Some newCube
               \<and> readCube (fst (applyMoveS h c m)) newCube = Some s'
               \<and> distinct (storageOf (fst (applyMoveS h c m)) newCube)
               \<and> (\<forall>a \<in> set (storageOf (fst (applyMoveS h c m)) newCube). length h \<le> a)"
proof -
  from assms obtain r as fs where
    r: "facesOf h c = Some r" and as: "rowsAt h r = Some as" and
    fs: "readRows h as = Some fs" and s: "s = \<lparr> faces = fs \<rparr>"
    by (auto simp: readCube_def bind_eq_Some_conv)
  let ?n = "length h"
  let ?k = "length as"
  let ?as' = "[?n..<?n + ?k]"
  let ?h1 = "h @ map Row fs"
  let ?h3 = "?h1 @ [Rows ?as'] @ [Cube (length ?h1)]"
  from fs have k: "length fs = ?k" by (simp add: readRows_Some)
  have cr: "do { r \<leftarrow> facesOf h c; as \<leftarrow> rowsAt h r; copyRows h as } = Some (?h1, ?as')"
    using r as copyRows_spec[OF fs] by simp
  have rd3: "readRows ?h3 ?as' = Some fs"
    using k by (auto simp: readRows_Some nth_append)
  have am: "applyMove s m = map_option (\<lambda>fs'. \<lparr> faces = fs' \<rparr>) (moveBody m fs)"
    by (cases "moveBody m fs") (simp_all add: applyMove_def s)
  show ?thesis
  proof (cases "moveBody m fs")
    case None
    with cr rd3 am show ?thesis by (simp add: applyMoveS_def alloc_def)
  next
    case (Some fs')
    then have k': "length fs' = ?k" using moveBody_length k by fastforce
    let ?h' = "storeRows ?h3 ?as' fs'"
    let ?c' = "Suc (?n + ?k)"
    have res: "applyMoveS h c m = (?h', Some ?c')"
      using cr rd3 Some k by (simp add: applyMoveS_def alloc_def)
    have len: "length ?h' = ?n + ?k + 2" using k by (simp add: storeRows_length)
    have "?h' ! ?c' = ?h3 ! ?c'" by (rule storeRows_other) simp
    then have c': "?h' ! ?c' = Cube (?n + ?k)" using k by (simp add: nth_append)
    have "?h' ! (?n + ?k) = ?h3 ! (?n + ?k)" by (rule storeRows_other) simp
    then have r': "?h' ! (?n + ?k) = Rows ?as'" using k by (simp add: nth_append)
    have rows: "\<forall>i < ?k. ?h' ! (?as' ! i) = Row (fs' ! i)"
    proof (intro allI impI)
      fix i assume "i < ?k"
      then show "?h' ! (?as' ! i) = Row (fs' ! i)"
        using storeRows_written[of ?as' fs' ?h3 i] k k' by simp
    qed
    have f: "facesOf ?h' ?c' = Some (?n + ?k)" using c' len by (simp add: facesOf_def)
    have rs: "rowsAt ?h' (?n + ?k) = Some ?as'" using r' len by (simp add: rowsAt_def)
    have rr: "readRows ?h' ?as' = Some fs'"
      using rows k' len by (simp add: readRows_Some)
    have "readCube ?h' ?c' = Some \<lparr> faces = fs' \<rparr>"
      using f rs rr by (simp add: readCube_def)
    moreover have "storageOf ?h' ?c' = ?c' # (?n + ?k) # ?as'"
      using f rs by (simp add: storageOf_def)
    ultimately show ?thesis using res am Some by auto
  qed
qed

text \<open>
  C4. \<^verbatim>\<open>applyMove\<close> writes to no address that was allocated before the call, so every
  object of the input, and with it each of its 54 facelets, is as it was; and when it
  returns, the new cube object, its array of faces and its face arrays are pairwise
  distinct addresses allocated during the call, none of them shared with the input, and
  they hold the state that the move gives.
\<close>

theorem applyMove_pure:
  "length h \<le> length (fst (applyMoveS h c m))
   \<and> (\<forall>a < length h. fst (applyMoveS h c m) ! a = h ! a)
   \<and> (readCube h c = Some s \<longrightarrow>
        readCube (fst (applyMoveS h c m)) c = Some s
      \<and> (case applyMove s m of
           None \<Rightarrow> snd (applyMoveS h c m) = None
         | Some s' \<Rightarrow>
             \<exists>newCube. snd (applyMoveS h c m) = Some newCube
               \<and> readCube (fst (applyMoveS h c m)) newCube = Some s'
               \<and> distinct (storageOf (fst (applyMoveS h c m)) newCube)
               \<and> (\<forall>a \<in> set (storageOf (fst (applyMoveS h c m)) newCube). length h \<le> a)
               \<and> set (storageOf (fst (applyMoveS h c m)) newCube) \<inter> set (storageOf h c) = {}))"
proof (intro conjI impI)
  show "length h \<le> length (fst (applyMoveS h c m))"
    and fr: "\<forall>a < length h. fst (applyMoveS h c m) ! a = h ! a"
    using applyMoveS_frame by blast+
next
  assume rc: "readCube h c = Some s"
  show "readCube (fst (applyMoveS h c m)) c = Some s"
    using readCube_frame[OF rc] applyMoveS_frame by blast
  have old: "\<forall>a \<in> set (storageOf h c). a < length h"
    using rc
    by (auto simp: readCube_def storageOf_def bind_eq_Some_conv readRows_Some facesOf_def
                   rowsAt_def in_set_conv_nth split: if_splits)
  show "case applyMove s m of
           None \<Rightarrow> snd (applyMoveS h c m) = None
         | Some s' \<Rightarrow>
             \<exists>newCube. snd (applyMoveS h c m) = Some newCube
               \<and> readCube (fst (applyMoveS h c m)) newCube = Some s'
               \<and> distinct (storageOf (fst (applyMoveS h c m)) newCube)
               \<and> (\<forall>a \<in> set (storageOf (fst (applyMoveS h c m)) newCube). length h \<le> a)
               \<and> set (storageOf (fst (applyMoveS h c m)) newCube) \<inter> set (storageOf h c) = {}"
    using applyMoveS_result[OF rc, of m] old
    by (fastforce split: option.splits)
qed

theorem applyMove_pure_witness:
  "\<exists>h s'. h = map (\<lambda>i. Row (replicate 9 (Num (int i)))) [0..<6] @ [Rows [0..<6], Cube 6]
     \<and> readCube h 7 = Some createSolvedCube
     \<and> applyMove createSolvedCube ''R'' = Some s' \<and> s' \<noteq> createSolvedCube
     \<and> readCube (fst (applyMoveS h 7 ''R'')) 7 = Some createSolvedCube
     \<and> (\<exists>newCube. snd (applyMoveS h 7 ''R'') = Some newCube
           \<and> readCube (fst (applyMoveS h 7 ''R'')) newCube = Some s'
           \<and> distinct (storageOf (fst (applyMoveS h 7 ''R'')) newCube)
           \<and> set (storageOf (fst (applyMoveS h 7 ''R'')) newCube) \<inter> set (storageOf h 7) = {})"
proof -
  let ?h = "map (\<lambda>i. Row (replicate 9 (Num (int i)))) [0..<6] @ [Rows [0..<6], Cube 6]"
  have rc: "readCube ?h 7 = Some createSolvedCube"
    by code_simp
  obtain s' where s': "applyMove createSolvedCube ''R'' = Some s'"
    using applyMove_total[OF wellFormed_createSolvedCube, of "''R''"] by blast
  have ne: "s' \<noteq> createSolvedCube"
    using s' by (auto simp: createSolvedCube_def applyMove_def moveBody_def grid_simps eval_nat_numeral)
  from applyMove_pure[of ?h 7 "''R''" createSolvedCube] rc s'
  have "readCube (fst (applyMoveS ?h 7 ''R'')) 7 = Some createSolvedCube"
    and "\<exists>newCube. snd (applyMoveS ?h 7 ''R'') = Some newCube
           \<and> readCube (fst (applyMoveS ?h 7 ''R'')) newCube = Some s'
           \<and> distinct (storageOf (fst (applyMoveS ?h 7 ''R'')) newCube)
           \<and> set (storageOf (fst (applyMoveS ?h 7 ''R'')) newCube) \<inter> set (storageOf ?h 7) = {}"
    by auto
  with rc s' ne show ?thesis by blast
qed



end
